theory Spec2Isabelle
  imports Main
begin

section \<open>Python values\<close>

text \<open>
  The scraper builds its threads and replies as Python dictionaries and writes them out
  as JSON, so they are modelled as JSON values. A dictionary is an association list: it
  keeps the insertion order of its keys, which is the order \<open>json.dump\<close> writes.
  A character is a code point below 256, so a string is text of the Latin-1 range.
\<close>

datatype py_error = TypeError | ZeroDivisionError

datatype jval =
    JNull
  | JStr string
  | JInt int
  | JBool bool
  | JList "jval list"
  | JDict "(string \<times> jval) list"

type_synonym pydict = "(string \<times> jval) list"

text \<open>Python's truth value of an object, as \<open>if x:\<close> and \<open>x or y\<close> test it.\<close>

fun truthy :: "jval \<Rightarrow> bool" where
  "truthy JNull = False"
| "truthy (JStr s) = (s \<noteq> [])"
| "truthy (JInt i) = (i \<noteq> 0)"
| "truthy (JBool b) = b"
| "truthy (JList xs) = (xs \<noteq> [])"
| "truthy (JDict d) = (d \<noteq> [])"

text \<open>\<open>d.get(k)\<close>: the value under the key, \<open>None\<close> when the key is absent.\<close>

definition dict_get :: "pydict \<Rightarrow> string \<Rightarrow> jval" where
  "dict_get d k = (case map_of d k of None \<Rightarrow> JNull | Some v \<Rightarrow> v)"

text \<open>\<open>d[k] = v\<close>: an existing key keeps its place, a new key goes last.\<close>

fun dict_set :: "pydict \<Rightarrow> string \<Rightarrow> jval \<Rightarrow> pydict" where
  "dict_set [] k v = [(k, v)]"
| "dict_set ((k', v') # d) k v = (if k' = k then (k, v) # d else (k', v') # dict_set d k v)"

section \<open>Strings and the regular expressions of the source\<close>

definition newline :: char where
  "newline = CHR 0x0A"

text \<open>
  The characters that \<open>str.strip()\<close> removes: the ASCII white space, the separators
  0x1C to 0x1F, the next-line character 0x85 and the no-break space 0xA0.
\<close>

definition is_space :: "char \<Rightarrow> bool" where
  "is_space c =
     (let n = (of_char c :: nat)
      in (9 \<le> n \<and> n \<le> 13) \<or> (28 \<le> n \<and> n \<le> 32) \<or> n = 133 \<or> n = 160)"

definition py_strip :: "string \<Rightarrow> string" where
  "py_strip s = rev (dropWhile is_space (rev (dropWhile is_space s)))"

definition is_digit :: "char \<Rightarrow> bool" where
  "is_digit c = (c \<in> set ''0123456789'')"

definition startswith :: "string \<Rightarrow> string \<Rightarrow> bool" where
  "startswith s p = (take (length p) s = p)"

text \<open>\<open>sep.join(xs)\<close>.\<close>

fun join :: "string \<Rightarrow> string list \<Rightarrow> string" where
  "join sep [] = []"
| "join sep [x] = x"
| "join sep (x # y # ys) = x @ sep @ join sep (y # ys)"

section \<open>Documents\<close>

text \<open>
  The HTML parser is a collaborator of the scraper, which sees a parsed page only through
  queries. An element is modelled by what those queries return: its attributes, its text
  nodes in document order, and for every CSS selector the matching descendants in
  document order (\<open>el.select(selector)\<close>). A parsed page is its root element. The
  configured selectors are taken to be valid CSS, so that a query answers and does not
  raise.
\<close>

datatype element =
  Element (attrs: "(string \<times> string) list") (texts: "string list")
    (select: "string \<Rightarrow> element list")

text \<open>\<open>el.select_one(selector)\<close>: the first match, \<open>None\<close> when there is none.\<close>

definition select_one :: "element \<Rightarrow> string \<Rightarrow> element option" where
  "select_one el selector = (case select el selector of [] \<Rightarrow> None | e # _ \<Rightarrow> Some e)"

text \<open>\<open>el.get(name)\<close>: the attribute's value, \<open>None\<close> when it is absent.\<close>

definition attr :: "element \<Rightarrow> string \<Rightarrow> string option" where
  "attr el name = map_of (attrs el) name"

text \<open>
  With \<open>strip=True\<close>, \<open>get_text\<close> strips every text node and leaves out those that
  become empty; it joins the rest with the separator (the empty string by default).
\<close>

definition stripped_strings :: "element \<Rightarrow> string list" where
  "stripped_strings el = filter (\<lambda>s. s \<noteq> []) (map py_strip (texts el))"

definition get_text_strip :: "element \<Rightarrow> string" where
  "get_text_strip el = concat (stripped_strings el)"

definition get_text_lines :: "element \<Rightarrow> string" where
  "get_text_lines el = join [newline] (stripped_strings el)"

section \<open>Selector chains\<close>

text \<open>A configured selector is one selector string or an ordered list of them.\<close>

datatype selector_config = Single string | Chain "string list"

fun as_list :: "selector_config \<Rightarrow> string list" where
  "as_list (Single s) = [s]"
| "as_list (Chain ss) = ss"

text \<open>
  \<open>_select_text\<close>: the loop over the selectors. An empty selector is skipped; so is a
  selector whose element is absent or has no text.
\<close>

fun select_text_chain :: "element \<Rightarrow> string list \<Rightarrow> string" where
  "select_text_chain soup [] = []"
| "select_text_chain soup (selector # rest) =
     (if selector = [] then select_text_chain soup rest
      else (case select_one soup selector of
              None \<Rightarrow> select_text_chain soup rest
            | Some el \<Rightarrow>
                (let text = get_text_strip el
                 in if text \<noteq> [] then text else select_text_chain soup rest)))"

definition select_text :: "element \<Rightarrow> selector_config \<Rightarrow> string" where
  "select_text soup selector_config = select_text_chain soup (as_list selector_config)"

text \<open>
  \<open>_extract_description\<close>: the configured chain, or the four default body wrappers. The
  loop returns at the first selector whose element is present, whatever its text.
\<close>

definition default_description_selectors :: "string list" where
  "default_description_selectors =
     [''.threaded-topic-body-wrapper'', ''.qa-topic-post-box'',
      ''.post__content--new-editor'', ''.post__content'']"

definition description_selectors :: "selector_config option \<Rightarrow> string list" where
  "description_selectors configured =
     (case configured of None \<Rightarrow> default_description_selectors | Some sc \<Rightarrow> as_list sc)"

fun description_chain :: "element \<Rightarrow> string list \<Rightarrow> string" where
  "description_chain soup [] = []"
| "description_chain soup (selector # rest) =
     (case select_one soup selector of
        None \<Rightarrow> description_chain soup rest
      | Some el \<Rightarrow> get_text_lines el)"

definition extract_description :: "selector_config option \<Rightarrow> element \<Rightarrow> string" where
  "extract_description configured soup = description_chain soup (description_selectors configured)"

section \<open>Dates\<close>

text \<open>
  Python refuses to order a datetime without a UTC offset (naive) against one with an
  offset (aware): the comparison raises \<open>TypeError\<close>. A datetime is modelled by its
  kind and its position on the time line.
\<close>

datatype datetime = Naive int | Aware int

fun dt_ge :: "datetime \<Rightarrow> datetime \<Rightarrow> py_error + bool" where
  "dt_ge (Naive a) (Naive b) = Inr (a \<ge> b)"
| "dt_ge (Aware a) (Aware b) = Inr (a \<ge> b)"
| "dt_ge _ _ = Inl TypeError"

text \<open>
  The standard library's date functions are parameters of the model:
  \<open>strptime raw fmt\<close> is \<open>None\<close> where \<open>datetime.strptime\<close> raises \<open>ValueError\<close>, and
  gives a naive datetime otherwise (none of the four formats reads an offset);
  \<open>fromisoformat\<close> likewise, giving a naive or an aware datetime; \<open>strftime\<close> formats
  with \<open>%Y-%m-%d %H:%M:%S\<close>.
\<close>

record pylib =
  strptime :: "string \<Rightarrow> string \<Rightarrow> int option"
  fromisoformat :: "string \<Rightarrow> datetime option"
  strftime :: "datetime \<Rightarrow> string"

definition date_formats :: "string list" where
  "date_formats = [''%Y-%m-%d'', ''%Y-%m-%d %H:%M:%S'', ''%Y/%m/%d'', ''%m/%d/%Y'']"

fun try_formats :: "pylib \<Rightarrow> string \<Rightarrow> string list \<Rightarrow> datetime option" where
  "try_formats lib raw [] = None"
| "try_formats lib raw (fmt # fmts) =
     (case strptime lib raw fmt of
        Some t \<Rightarrow> Some (Naive t)
      | None \<Rightarrow> try_formats lib raw fmts)"

text \<open>\<open>raw.replace("Z", "+00:00")\<close>.\<close>

definition replace_Z :: "string \<Rightarrow> string" where
  "replace_Z raw = concat (map (\<lambda>c. if c = CHR ''Z'' then ''+00:00'' else [c]) raw)"

definition parse_date :: "pylib \<Rightarrow> string option \<Rightarrow> datetime option" where
  "parse_date lib value =
     (case value of
        None \<Rightarrow> None
      | Some v \<Rightarrow>
          if v = [] then None
          else (let raw = py_strip v
                in if raw = [] then None
                   else (case try_formats lib raw date_formats of
                           Some d \<Rightarrow> Some d
                         | None \<Rightarrow> fromisoformat lib (replace_Z raw))))"

section \<open>Configuration\<close>

text \<open>
  The fields of \<open>ForumDumper\<close> that the crawl reads. An optional selector is \<open>None\<close>
  when the forum's configuration has no such key, and the code falls back to its default.
  The listing page's URL, the thread-URL pattern and the load-more selector are inputs of
  the browser only; what the browser returns for them is part of the world below.
\<close>

record config =
  thread_base :: string
  max_stale_rounds :: int
  checkpoint_every :: int
  max_pages :: "int option"
  test_limit :: "int option"
  since_dt :: "datetime option"
  sel_title :: selector_config
  sel_author :: "selector_config option"
  sel_date :: "string option"
  sel_description :: "selector_config option"
  sel_tags :: "string option"
  sel_status_labels :: "string option"
  sel_reply_container :: "string option"
  sel_reply_body :: "string option"
  sel_reply_author :: "string option"
  sel_accepted_marker :: "selector_config option"
  status_resolved :: "string list"
  status_unresolved :: "string list"

text \<open>\<open>self.selectors.get(key, default)\<close>.\<close>

definition get_or :: "'a option \<Rightarrow> 'a \<Rightarrow> 'a" where
  "get_or configured dflt = (case configured of None \<Rightarrow> dflt | Some v \<Rightarrow> v)"

section \<open>Field extraction\<close>

text \<open>\<open>s.split(" | ")[0]\<close>: the text before the first occurrence of the separator.\<close>

fun before_sep :: "string \<Rightarrow> string \<Rightarrow> string" where
  "before_sep sep [] = []"
| "before_sep sep (c # cs) = (if startswith (c # cs) sep then [] else c # before_sep sep cs)"

text \<open>\<open>p in s\<close> for strings.\<close>

fun contains :: "string \<Rightarrow> string \<Rightarrow> bool" where
  "contains [] p = (p = [])"
| "contains (c # cs) p = (startswith (c # cs) p \<or> contains cs p)"

text \<open>
  \<open>str.lower()\<close>: the capital letters are A to Z and, in the upper half of Latin-1, 0xC0
  to 0xDE without the multiplication sign 0xD7; the small letter is 32 places further.
\<close>

definition lower_char :: "char \<Rightarrow> char" where
  "lower_char c =
     (let n = (of_char c :: nat)
      in if (65 \<le> n \<and> n \<le> 90) \<or> (192 \<le> n \<and> n \<le> 222 \<and> n \<noteq> 215)
         then char_of (n + 32) else c)"

definition lower :: "string \<Rightarrow> string" where
  "lower s = map lower_char s"

text \<open>
  \<open>re.search(r"(\d[\d,]*)", text)\<close> and \<open>re.search(r"(\d+)", text)\<close>: the group of the
  leftmost match, which starts at the first digit and is as long as it can be.
\<close>

fun search_grouped_number :: "string \<Rightarrow> string option" where
  "search_grouped_number [] = None"
| "search_grouped_number (c # cs) =
     (if is_digit c then Some (c # takeWhile (\<lambda>d. is_digit d \<or> d = CHR '','') cs)
      else search_grouped_number cs)"

fun search_number :: "string \<Rightarrow> string option" where
  "search_number [] = None"
| "search_number (c # cs) =
     (if is_digit c then Some (c # takeWhile is_digit cs) else search_number cs)"

text \<open>\<open>int(s)\<close> on a string of digits.\<close>

definition digit_value :: "char \<Rightarrow> int" where
  "digit_value c = int (of_char c) - 48"

definition py_int :: "string \<Rightarrow> int" where
  "py_int s = foldl (\<lambda>n c. 10 * n + digit_value c) 0 s"

definition stat_of_text :: "string \<Rightarrow> int option" where
  "stat_of_text text =
     map_option (\<lambda>m. py_int (filter (\<lambda>c. c \<noteq> CHR '','') m)) (search_grouped_number text)"

definition extract_title :: "config \<Rightarrow> element \<Rightarrow> string" where
  "extract_title cfg soup =
     (let title = select_text soup (sel_title cfg)
      in if title \<noteq> [] then title
         else (case select_one soup ''title'' of
                 Some title_tag \<Rightarrow> py_strip (before_sep '' | '' (get_text_strip title_tag))
               | None \<Rightarrow> []))"

text \<open>\<open>if primary_selector:\<close> on a configured selector.\<close>

fun config_truthy :: "selector_config \<Rightarrow> bool" where
  "config_truthy (Single s) = (s \<noteq> [])"
| "config_truthy (Chain ss) = (ss \<noteq> [])"

definition extract_author :: "config \<Rightarrow> element \<Rightarrow> string" where
  "extract_author cfg soup =
     (let author = (case sel_author cfg of
                      None \<Rightarrow> []
                    | Some primary_selector \<Rightarrow>
                        if config_truthy primary_selector
                        then select_text soup primary_selector else [])
      in if author \<noteq> [] then author
         else (case select_one soup ''.author-info'' of
                 Some fallback \<Rightarrow> get_text_strip fallback
               | None \<Rightarrow> []))"

text \<open>
  \<open>el and el.get("datetime")\<close>: the attribute of the selected element, when the element
  is there and the attribute is a non-empty string.
\<close>

definition datetime_attr :: "element \<Rightarrow> string \<Rightarrow> string option" where
  "datetime_attr root selector =
     (case select_one root selector of
        None \<Rightarrow> None
      | Some el \<Rightarrow>
          (case attr el ''datetime'' of
             None \<Rightarrow> None
           | Some dt \<Rightarrow> if dt = [] then None else Some dt))"

text \<open>\<open>parsed.strftime(...) if parsed else dt\<close>: an unparseable date is kept as it is.\<close>

definition normalise_date :: "pylib \<Rightarrow> string \<Rightarrow> string" where
  "normalise_date lib dt =
     (case parse_date lib (Some dt) of Some parsed \<Rightarrow> strftime lib parsed | None \<Rightarrow> dt)"

definition extract_post_date :: "pylib \<Rightarrow> config \<Rightarrow> element \<Rightarrow> string" where
  "extract_post_date lib cfg soup =
     (case datetime_attr soup (get_or (sel_date cfg) ''time[datetime]'') of
        Some dt \<Rightarrow> normalise_date lib dt
      | None \<Rightarrow>
          (case datetime_attr soup ''time[datetime]'' of
             Some dt \<Rightarrow> normalise_date lib dt
           | None \<Rightarrow> []))"

definition extract_tags :: "config \<Rightarrow> element \<Rightarrow> string list" where
  \<open>extract_tags cfg soup =
     foldl (\<lambda>tags el.
              let tag = get_text_strip el
              in if tag \<noteq> [] \<and> tag \<notin> set tags then tags @ [tag] else tags)
       [] (select soup (get_or (sel_tags cfg) ''a[href*="search_type=tag"]''))\<close>

text \<open>
  \<open>_extract_stat\<close>: first the element whose accessibility label contains the keyword,
  then three class selectors in order; 0 when none of them holds a number.
\<close>

fun stat_fallback :: "element \<Rightarrow> string list \<Rightarrow> int" where
  "stat_fallback soup [] = 0"
| "stat_fallback soup (selector # rest) =
     (case select_one soup selector of
        None \<Rightarrow> stat_fallback soup rest
      | Some el \<Rightarrow>
          (case stat_of_text (get_text_strip el) of
             Some n \<Rightarrow> n
           | None \<Rightarrow> stat_fallback soup rest))"

definition extract_stat :: "element \<Rightarrow> string \<Rightarrow> int" where
  \<open>extract_stat soup keyword =
     (let fallback = stat_fallback soup
            [''.'' @ keyword @ ''-count'', ''.'' @ keyword @ ''s'',
             ''[class*="'' @ keyword @ ''"]'']
      in case select_one soup (''[aria-label*="'' @ keyword @ ''"]'') of
           None \<Rightarrow> fallback
         | Some el \<Rightarrow>
             (case stat_of_text (get_or (attr el ''aria-label'') [] @ '' '' @ get_text_strip el) of
                Some n \<Rightarrow> n
              | None \<Rightarrow> fallback))\<close>

definition extract_status :: "config \<Rightarrow> element \<Rightarrow> string" where
  "extract_status cfg soup =
     (let labels = map (\<lambda>el. lower (get_text_strip el))
                     (select soup (get_or (sel_status_labels cfg) ''.label-component''));
          resolved_terms = map lower (status_resolved cfg);
          unresolved_terms = map lower (status_unresolved cfg)
      in if list_ex (\<lambda>label. list_ex (\<lambda>term. contains label term) resolved_terms) labels
         then ''resolved''
         else if list_ex (\<lambda>label. list_ex (\<lambda>term. contains label term) unresolved_terms) labels
         then ''unresolved''
         else if select_one soup ''.best-answer'' \<noteq> None then ''resolved''
         else ''unknown'')"

section \<open>Replies\<close>

text \<open>
  \<open>re.sub(r"(A|B|...)$", "", s)\<close>: the leftmost place where one of the alternatives ends
  the string (or stands before its final line break) is cut out.
\<close>

fun sub_suffix :: "string list \<Rightarrow> string \<Rightarrow> string" where
  "sub_suffix alts [] = []"
| "sub_suffix alts (c # cs) =
     (case find (\<lambda>a. c # cs = a \<or> c # cs = a @ [newline]) alts of
        Some a \<Rightarrow> drop (length a) (c # cs)
      | None \<Rightarrow> c # sub_suffix alts cs)"

definition role_suffixes :: "string list" where
  "role_suffixes =
     [''Accepted solution'', ''Author'', ''Adobe Employee'', ''Community Expert'',
      ''Correct answer'']"

definition default_accepted_markers :: selector_config where
  "default_accepted_markers = Chain [''.best-answer'', ''.label--success'']"

definition extract_reply :: "pylib \<Rightarrow> config \<Rightarrow> element \<Rightarrow> pydict" where
  \<open>extract_reply lib cfg item =
     (let author_text =
            (case select_one item (get_or (sel_reply_author cfg) ''.author-info'') of
               Some author_el \<Rightarrow> get_text_strip author_el
             | None \<Rightarrow> []);
          author_text = py_strip (sub_suffix role_suffixes author_text);
          date = (case datetime_attr item ''time[datetime]'' of
                    Some dt \<Rightarrow> normalise_date lib dt
                  | None \<Rightarrow> []);
          text = (case select_one item (get_or (sel_reply_body cfg) ''.threaded-reply-body-wrapper'') of
                    Some body_el \<Rightarrow> get_text_lines body_el
                  | None \<Rightarrow> []);
          accepted_markers = as_list (get_or (sel_accepted_marker cfg) default_accepted_markers);
          is_accepted =
            (list_ex (\<lambda>marker. select_one item marker \<noteq> None) accepted_markers
             \<or> list_ex (\<lambda>label. contains (lower (get_text_strip label)) ''accepted solution'')
                 (select item (get_or (sel_status_labels cfg) ''.label-component'')));
          likes =
            (case select_one item ''[aria-label*="like"], [aria-label*="kudo"]'' of
               Some like_el \<Rightarrow>
                 (case search_number
                         (get_or (attr like_el ''aria-label'') [] @ '' '' @ get_text_strip like_el) of
                    Some m \<Rightarrow> py_int m
                  | None \<Rightarrow> 0)
             | None \<Rightarrow> 0)
      in [(''author'', JStr author_text), (''date'', JStr date), (''text'', JStr text),
          (''is_accepted'', JBool is_accepted), (''likes'', JInt likes)])\<close>

text \<open>A reply with neither text nor author is left out.\<close>

definition extract_replies :: "pylib \<Rightarrow> config \<Rightarrow> element \<Rightarrow> pydict list" where
  "extract_replies lib cfg soup =
     filter (\<lambda>reply. truthy (dict_get reply ''text'') \<or> truthy (dict_get reply ''author''))
       (map (extract_reply lib cfg)
          (select soup (get_or (sel_reply_container cfg) ''.threaded-reply-item'')))"

section \<open>Thread extraction\<close>

text \<open>
  The world the crawl runs in. \<open>page url\<close> is what loading and parsing the thread page
  gives: the parsed page, or the message of the exception that loading or parsing raised.
  \<open>now url\<close> is the clock's reading, formatted, when that thread's record is built.
  \<open>listing k\<close> is the list of hrefs of the anchors matching the thread-URL pattern in the
  listing page as the browser shows it in round \<open>k\<close> (after \<open>k\<close> load-more clicks), and
  \<open>click_ok k\<close> tells whether finding and clicking the load-more control then succeeds.
  The listing page itself is taken to load, and the output file to be writable.
\<close>

record world =
  page :: "string \<Rightarrow> string + element"
  now :: "string \<Rightarrow> string"
  listing :: "nat \<Rightarrow> string list"
  click_ok :: "nat \<Rightarrow> bool"

definition comments_of :: "pydict \<Rightarrow> jval list" where
  "comments_of thread = (case dict_get thread ''comments'' of JList xs \<Rightarrow> xs | _ \<Rightarrow> [])"

text \<open>
  The loop over the replies: every accepted reply is stored as the accepted answer, a
  later one over an earlier one, and every reply is appended to the comments.
\<close>

fun add_replies :: "pydict \<Rightarrow> pydict list \<Rightarrow> pydict" where
  "add_replies thread [] = thread"
| "add_replies thread (reply # rest) =
     (let thread = (if truthy (dict_get reply ''is_accepted'')
                    then dict_set thread ''accepted_answer'' (JDict reply) else thread);
          thread = dict_set thread ''comments'' (JList (comments_of thread @ [JDict reply]))
      in add_replies thread rest)"

text \<open>\<open>a or b\<close> on integers.\<close>

definition int_or :: "int \<Rightarrow> int \<Rightarrow> int" where
  "int_or a b = (if a \<noteq> 0 then a else b)"

definition thread_fields :: "pylib \<Rightarrow> config \<Rightarrow> world \<Rightarrow> string \<Rightarrow> element \<Rightarrow> pydict" where
  "thread_fields lib cfg w url soup =
     [(''url'', JStr url),
      (''title'', JStr (extract_title cfg soup)),
      (''author'', JStr (extract_author cfg soup)),
      (''date_posted'', JStr (extract_post_date lib cfg soup)),
      (''description'', JStr (extract_description (sel_description cfg) soup)),
      (''tags'', JList (map JStr (extract_tags cfg soup))),
      (''views'', JInt (extract_stat soup ''view'')),
      (''replies_count'', JInt (extract_stat soup ''repl'')),
      (''likes'', JInt (int_or (extract_stat soup ''like'') (extract_stat soup ''kudo''))),
      (''status'', JStr (extract_status cfg soup)),
      (''accepted_answer'', JNull),
      (''comments'', JList []),
      (''scraped_at'', JStr (now w url))]"

definition extract_thread :: "pylib \<Rightarrow> config \<Rightarrow> world \<Rightarrow> string \<Rightarrow> pydict" where
  "extract_thread lib cfg w url =
     (case page w url of
        Inr soup \<Rightarrow>
          (let thread = thread_fields lib cfg w url soup;
               replies = extract_replies lib cfg soup;
               thread = add_replies thread replies
           in dict_set thread ''replies_count''
                (if truthy (dict_get thread ''replies_count'')
                 then dict_get thread ''replies_count''
                 else JInt (int (length (comments_of thread)))))
      | Inl message \<Rightarrow>
          [(''url'', JStr url), (''error'', JStr message), (''scraped_at'', JStr (now w url))])"

section \<open>URL discovery\<close>

text \<open>
  \<open>re.sub(r"\?.*$", "", href)\<close>: in Python \<open>.\<close> does not match a line break and \<open>$\<close>
  matches at the end of the string or before a final line break. The leftmost question
  mark with no line break after it, but possibly a final one, starts the match; the match
  runs up to that final line break.
\<close>

fun strip_query :: "string \<Rightarrow> string" where
  "strip_query [] = []"
| "strip_query (c # cs) =
     (if c = CHR ''?'' \<and> (dropWhile (\<lambda>d. d \<noteq> newline) cs = []
                          \<or> dropWhile (\<lambda>d. d \<noteq> newline) cs = [newline])
      then dropWhile (\<lambda>d. d \<noteq> newline) cs
      else c # strip_query cs)"

text \<open>
  \<open>re.search(r"-\d{3,}$", href)\<close>: a hyphen, then three digits or more, up to the end of
  the string or to its final line break.
\<close>

fun has_id_suffix :: "string \<Rightarrow> bool" where
  "has_id_suffix [] = False"
| "has_id_suffix (c # cs) =
     ((c = CHR ''-'' \<and> 3 \<le> length (takeWhile is_digit cs)
         \<and> (dropWhile is_digit cs = [] \<or> dropWhile is_digit cs = [newline]))
      \<or> has_id_suffix cs)"

text \<open>The first statements of the loop over the links: the href as it will be stored.\<close>

definition canonical_href :: "config \<Rightarrow> string \<Rightarrow> string" where
  "canonical_href cfg link =
     (let href = strip_query link
      in if startswith href ''http'' then href
         else thread_base cfg @ ''/'' @ dropWhile (\<lambda>c. c = CHR ''/'') href)"

text \<open>
  The loop over the links of one page: the URLs, the set of seen URLs, and the count of
  URLs added in this round.
\<close>

fun scan_links ::
  "config \<Rightarrow> string list \<Rightarrow> string list \<times> string set \<times> nat
     \<Rightarrow> string list \<times> string set \<times> nat" where
  "scan_links cfg [] acc = acc"
| "scan_links cfg (link # links) (urls, seen, new_this_round) =
     (let href = canonical_href cfg link
      in if \<not> has_id_suffix href then scan_links cfg links (urls, seen, new_this_round)
         else if href \<notin> seen
         then scan_links cfg links (urls @ [href], insert href seen, new_this_round + 1)
         else scan_links cfg links (urls, seen, new_this_round))"

text \<open>\<open>xs[:n]\<close>: a negative \<open>n\<close> counts from the end.\<close>

definition py_prefix :: "'a list \<Rightarrow> int \<Rightarrow> 'a list" where
  "py_prefix xs n = (if 0 \<le> n then take (nat n) xs else take (length xs - nat (- n)) xs)"


text \<open>The first two stop conditions: \<open>self.test_limit and len(urls) >= self.test_limit\<close>
  and \<open>self.max_pages and click_count >= self.max_pages\<close>.\<close>

definition test_limit_reached :: "config \<Rightarrow> nat \<Rightarrow> bool" where
  "test_limit_reached cfg n =
     (case test_limit cfg of None \<Rightarrow> False | Some l \<Rightarrow> l \<noteq> 0 \<and> l \<le> int n)"

definition max_pages_reached :: "config \<Rightarrow> nat \<Rightarrow> bool" where
  "max_pages_reached cfg k =
     (case max_pages cfg of None \<Rightarrow> False | Some m \<Rightarrow> m \<noteq> 0 \<and> m \<le> int k)"

text \<open>The variables of the discovery loop.\<close>

record discovery =
  urls :: "string list"
  seen :: "string set"
  click_count :: nat
  stale_rounds :: nat

datatype stop_reason = TestLimit | MaxPages | StaleRounds | ButtonUnavailable

text \<open>
  What the loop returns, \<open>out_urls\<close>, together with the counters at the \<open>break\<close> and
  the \<open>break\<close> that was taken.
\<close>

record outcome =
  out_urls :: "string list"
  out_clicks :: nat
  out_stale :: nat
  out_reason :: stop_reason

datatype round_result = Halt outcome | Advance discovery

text \<open>
  One pass through the body of \<open>while True\<close>: scan the page, account for stale rounds,
  then the four stop conditions in the order of the source. Every pass that does not
  stop clicks once, so the pass that starts with \<open>k\<close> clicks reads \<open>listing w k\<close>.
\<close>

definition discovery_round :: "config \<Rightarrow> world \<Rightarrow> discovery \<Rightarrow> round_result" where
  "discovery_round cfg w st =
     (case scan_links cfg (listing w (click_count st)) (urls st, seen st, 0) of
        (urls', seen', new_this_round) \<Rightarrow>
          (let stale = (if 0 < new_this_round then 0 else stale_rounds st + 1)
           in if test_limit_reached cfg (length urls')
              then Halt \<lparr>out_urls = py_prefix urls' (get_or (test_limit cfg) 0),
                         out_clicks = click_count st, out_stale = stale, out_reason = TestLimit\<rparr>
              else if max_pages_reached cfg (click_count st)
              then Halt \<lparr>out_urls = urls', out_clicks = click_count st, out_stale = stale,
                         out_reason = MaxPages\<rparr>
              else if max_stale_rounds cfg \<le> int stale
              then Halt \<lparr>out_urls = urls', out_clicks = click_count st, out_stale = stale,
                         out_reason = StaleRounds\<rparr>
              else if click_ok w (click_count st)
              then Advance \<lparr>urls = urls', seen = seen', click_count = click_count st + 1,
                            stale_rounds = stale\<rparr>
              else Halt \<lparr>out_urls = urls', out_clicks = click_count st, out_stale = stale,
                         out_reason = ButtonUnavailable\<rparr>))"

text \<open>The loop may run forever: a listing that keeps growing never makes it stop.\<close>

partial_function (option) discovery_loop :: "config \<Rightarrow> world \<Rightarrow> discovery \<Rightarrow> outcome option" where
  "discovery_loop cfg w st =
     (case discovery_round cfg w st of
        Halt out \<Rightarrow> Some out
      | Advance st' \<Rightarrow> discovery_loop cfg w st')"

definition discover :: "config \<Rightarrow> world \<Rightarrow> outcome option" where
  "discover cfg w =
     discovery_loop cfg w \<lparr>urls = [], seen = {}, click_count = 0, stale_rounds = 0\<rparr>"

definition collect_question_urls :: "config \<Rightarrow> world \<Rightarrow> string list option" where
  "collect_question_urls cfg w = map_option out_urls (discover cfg w)"

subsection \<open>The rounds of the discovery loop\<close>

text \<open>
  Deduplication that keeps the first occurrence of every element, in the order of the
  first occurrences.
\<close>

fun first_seen :: "'a list \<Rightarrow> 'a list" where
  "first_seen [] = []"
| "first_seen (x # xs) = x # first_seen (removeAll x xs)"

text \<open>The hrefs of one page that the loop over the links lets through, as stored.\<close>

definition accepted_hrefs :: "config \<Rightarrow> string list \<Rightarrow> string list" where
  "accepted_hrefs cfg links = filter has_id_suffix (map (canonical_href cfg) links)"

text \<open>What the scans of the rounds before round \<open>k\<close> let through, in scan order.\<close>

definition scanned :: "config \<Rightarrow> world \<Rightarrow> nat \<Rightarrow> string list" where
  "scanned cfg w k = concat (map (\<lambda>r. accepted_hrefs cfg (listing w r)) [0..<k])"

text \<open>The URLs collected by the rounds before round \<open>k\<close>.\<close>

definition collected :: "config \<Rightarrow> world \<Rightarrow> nat \<Rightarrow> string list" where
  "collected cfg w k = first_seen (scanned cfg w k)"

text \<open>
  The stale-round counter before round \<open>k\<close>: reset by a round that made the collection
  grow, incremented by a round that did not.
\<close>

fun stale_before :: "config \<Rightarrow> world \<Rightarrow> nat \<Rightarrow> nat" where
  "stale_before cfg w 0 = 0"
| "stale_before cfg w (Suc k) =
     (if length (collected cfg w k) < length (collected cfg w (Suc k)) then 0
      else stale_before cfg w k + 1)"

text \<open>The loop variables at the start of round \<open>k\<close>, when no earlier round stopped.\<close>

definition state_at :: "config \<Rightarrow> world \<Rightarrow> nat \<Rightarrow> discovery" where
  "state_at cfg w k =
     \<lparr>urls = collected cfg w k, seen = set (collected cfg w k), click_count = k,
      stale_rounds = stale_before cfg w k\<rparr>"

text \<open>What the loop returns when round \<open>k\<close> stops for the given reason.\<close>

definition outcome_at :: "config \<Rightarrow> world \<Rightarrow> nat \<Rightarrow> stop_reason \<Rightarrow> outcome" where
  "outcome_at cfg w k reason =
     \<lparr>out_urls = (if reason = TestLimit
                   then py_prefix (collected cfg w (Suc k)) (get_or (test_limit cfg) 0)
                   else collected cfg w (Suc k)),
      out_clicks = k, out_stale = stale_before cfg w (Suc k), out_reason = reason\<rparr>"

text \<open>The \<open>break\<close> that round \<open>k\<close> takes, if any.\<close>

definition decision :: "config \<Rightarrow> world \<Rightarrow> nat \<Rightarrow> stop_reason option" where
  "decision cfg w k =
     (if test_limit_reached cfg (length (collected cfg w (Suc k))) then Some TestLimit
      else if max_pages_reached cfg k then Some MaxPages
      else if max_stale_rounds cfg \<le> int (stale_before cfg w (Suc k)) then Some StaleRounds
      else if click_ok w k then None
      else Some ButtonUnavailable)"

section \<open>The run\<close>

text \<open>\<open>thread.get("date_posted")\<close> as the argument of \<open>parse_date\<close>: a string or \<open>None\<close>.\<close>

fun as_text :: "jval \<Rightarrow> string option" where
  "as_text (JStr s) = Some s"
| "as_text _ = None"

text \<open>
  \<open>_is_after_since\<close>. The comparison \<open>posted >= self.since_dt\<close> raises when one datetime
  is naive and the other aware.
\<close>

definition is_after_since :: "pylib \<Rightarrow> config \<Rightarrow> pydict \<Rightarrow> py_error + bool" where
  "is_after_since lib cfg thread =
     (case since_dt cfg of
        None \<Rightarrow> Inr True
      | Some since \<Rightarrow>
          (case parse_date lib (as_text (dict_get thread ''date_posted'')) of
             None \<Rightarrow> Inr True
           | Some posted \<Rightarrow> dt_ge posted since))"

text \<open>
  Whether the run keeps a record: one with a non-empty error always, any other when the
  since-date filter lets it through.
\<close>

definition keep_decision :: "pylib \<Rightarrow> config \<Rightarrow> pydict \<Rightarrow> py_error + bool" where
  "keep_decision lib cfg thread =
     (if truthy (dict_get thread ''error'') then Inr True else is_after_since lib cfg thread)"

text \<open>
  What the run does to the world, in order: the extraction of a thread URL, a write of
  the output file (its content, and whether it is a checkpoint), the release of the
  browser session.
\<close>

datatype event = Extract string | Save "pydict list" bool | Quit

text \<open>
  The loop over \<open>enumerate(urls, 1)\<close>. An exception raised in the loop body (by the date
  comparison, or by \<open>index % checkpoint_every\<close> when the cadence is 0) leaves the loop
  and the run; the log holds what happened before.
\<close>

fun run_loop ::
  "pylib \<Rightarrow> config \<Rightarrow> world \<Rightarrow> int \<Rightarrow> string list \<Rightarrow> pydict list \<Rightarrow> event list
     \<Rightarrow> (py_error + pydict list) \<times> event list" where
  "run_loop lib cfg w index [] threads log = (Inr threads, log)"
| "run_loop lib cfg w index (url # rest) threads log =
     (let thread = extract_thread lib cfg w url;
          log = log @ [Extract url]
      in case keep_decision lib cfg thread of
           Inl err \<Rightarrow> (Inl err, log)
         | Inr keep \<Rightarrow>
             (let threads = (if keep then threads @ [thread] else threads)
              in if checkpoint_every cfg = 0 then (Inl ZeroDivisionError, log)
                 else if index mod checkpoint_every cfg = 0
                 then run_loop lib cfg w (index + 1) rest threads (log @ [Save threads True])
                 else run_loop lib cfg w (index + 1) rest threads log))"

text \<open>
  \<open>run\<close>: the result (the threads, or the exception that left the run) and the log;
  \<open>None\<close> when URL discovery never stops. The browser session exists whenever \<open>run\<close>
  is called, so \<open>if self.driver\<close> holds.
\<close>

definition run ::
  "pylib \<Rightarrow> config \<Rightarrow> world \<Rightarrow> ((py_error + pydict list) \<times> event list) option" where
  "run lib cfg w =
     (case collect_question_urls cfg w of
        None \<Rightarrow> None
      | Some found \<Rightarrow>
          Some (if found = [] then (Inr [], [])
                else (case run_loop lib cfg w 1 found [] [] of
                        (Inl err, log) \<Rightarrow> (Inl err, log)
                      | (Inr threads, log) \<Rightarrow>
                          (Inr threads, log @ [Save threads False, Quit]))))"

subsection \<open>Reading the log\<close>

text \<open>
  The writes of the output file, each with the number of URLs processed before it, its
  content and its checkpoint flag.
\<close>

fun writes_from :: "nat \<Rightarrow> event list \<Rightarrow> (nat \<times> pydict list \<times> bool) list" where
  "writes_from n [] = []"
| "writes_from n (Extract url # es) = writes_from (Suc n) es"
| "writes_from n (Save threads checkpoint # es) = (n, threads, checkpoint) # writes_from n es"
| "writes_from n (Quit # es) = writes_from n es"

definition writes_of :: "event list \<Rightarrow> (nat \<times> pydict list \<times> bool) list" where
  "writes_of log = writes_from 0 log"

text \<open>The URLs processed, in order.\<close>

fun extracts_of :: "event list \<Rightarrow> string list" where
  "extracts_of [] = []"
| "extracts_of (Extract url # es) = url # extracts_of es"
| "extracts_of (_ # es) = extracts_of es"

text \<open>The threads accumulated over a list of URLs: the records the run keeps.\<close>

definition accumulated :: "pylib \<Rightarrow> config \<Rightarrow> world \<Rightarrow> string list \<Rightarrow> pydict list" where
  "accumulated lib cfg w us =
     filter (\<lambda>thread. keep_decision lib cfg thread = Inr True)
       (map (extract_thread lib cfg w) us)"

subsection \<open>Canonical thread URLs in the words of the specification\<close>





text \<open>The stale-round counter that a pass through the loop body leaves.\<close>

fun result_stale :: "round_result \<Rightarrow> nat" where
  "result_stale (Halt out) = out_stale out"
| "result_stale (Advance st) = stale_rounds st"

subsection \<open>The fallback policy in the words of the specification\<close>

text \<open>
  The text a selector yields under a reading \<open>txt\<close> of elements: empty when no element
  matches.
\<close>

definition selector_yield :: "(element \<Rightarrow> string) \<Rightarrow> element \<Rightarrow> string \<Rightarrow> string" where
  "selector_yield txt soup selector =
     (case select_one soup selector of None \<Rightarrow> [] | Some el \<Rightarrow> txt el)"

text \<open>
  The specification's policy: the text of the first selector of the chain that yields
  non-empty text, and the empty string when none does.
\<close>

definition first_nonempty_text :: "(string \<Rightarrow> string) \<Rightarrow> string list \<Rightarrow> string" where
  "first_nonempty_text yield chain =
     (case find (\<lambda>s. yield s \<noteq> []) chain of None \<Rightarrow> [] | Some s \<Rightarrow> yield s)"

text \<open>
  What the description loop does instead: the text of the first selector of the chain
  whose element is present.
\<close>

definition first_present_text :: "(element \<Rightarrow> string) \<Rightarrow> element \<Rightarrow> string list \<Rightarrow> string" where
  "first_present_text txt soup chain =
     (case find (\<lambda>s. select_one soup s \<noteq> None) chain of
        None \<Rightarrow> []
      | Some s \<Rightarrow> selector_yield txt soup s)"

subsection \<open>The accepted answer in the words of the specification\<close>

definition accepted :: "pydict \<Rightarrow> bool" where
  "accepted reply = truthy (dict_get reply ''is_accepted'')"

text \<open>The specification's choice: the first accepted reply in document order.\<close>

definition first_accepted :: "pydict list \<Rightarrow> pydict option" where
  "first_accepted replies = find accepted replies"

text \<open>The last accepted reply in document order.\<close>

definition last_accepted :: "pydict list \<Rightarrow> pydict option" where
  "last_accepted replies = find accepted (rev replies)"

section \<open>Example inputs\<close>

text \<open>
  A date library that parses nothing, a forum configuration that leaves every optional
  selector to its default, and thread pages given by the answers to the queries the
  extractor makes.
\<close>

definition no_dates_lib :: pylib where
  "no_dates_lib =
     \<lparr>strptime = (\<lambda>raw fmt. None), fromisoformat = (\<lambda>raw. None), strftime = (\<lambda>d. [])\<rparr>"

definition forum_config :: config where
  "forum_config =
     \<lparr>thread_base = ''https://forum.example'', max_stale_rounds = 3, checkpoint_every = 2,
      max_pages = None, test_limit = None, since_dt = None,
      sel_title = Single ''h1'', sel_author = None, sel_date = None, sel_description = None,
      sel_tags = None, sel_status_labels = None, sel_reply_container = None,
      sel_reply_body = None, sel_reply_author = None, sel_accepted_marker = None,
      status_resolved = [''solved''], status_unresolved = [''open'']\<rparr>"

definition leaf :: "string list \<Rightarrow> element" where
  "leaf ts = Element [] ts (\<lambda>_. [])"

definition page_empty_wrapper :: element where
  "page_empty_wrapper =
     Element [] []
       (\<lambda>s. if s = ''.threaded-topic-body-wrapper'' then [leaf []]
            else if s = ''.qa-topic-post-box'' then [leaf [''How do I export?'']]
            else [])"

text \<open>A reply item: its author, its body, and whether it carries the best-answer marker.\<close>

definition reply_item :: "string \<Rightarrow> string \<Rightarrow> bool \<Rightarrow> element" where
  "reply_item author body best =
     Element [] [author, body]
       (\<lambda>s. if s = ''.author-info'' then [leaf [author]]
            else if s = ''.threaded-reply-body-wrapper'' then [leaf [body]]
            else if s = ''.best-answer'' \<and> best then [leaf []]
            else [])"

text \<open>
  A thread page with three replies, the first and the third marked as accepted. The
  queries at the root find what the replies hold, in document order.
\<close>

definition page_two_accepted :: element where
  "page_two_accepted =
     Element [] [''ann'', ''Use the export menu.'', ''bob'', ''Thanks!'', ''cy'', ''Or press Ctrl+E.'']
       (\<lambda>s. if s = ''.threaded-reply-item''
            then [reply_item ''ann'' ''Use the export menu.'' True,
                  reply_item ''bob'' ''Thanks!'' False,
                  reply_item ''cy'' ''Or press Ctrl+E.'' True]
            else if s = ''.author-info'' then [leaf [''ann''], leaf [''bob''], leaf [''cy'']]
            else if s = ''.threaded-reply-body-wrapper''
            then [leaf [''Use the export menu.''], leaf [''Thanks!''], leaf [''Or press Ctrl+E.'']]
            else if s = ''.best-answer'' then [leaf [], leaf []]
            else [])"

text \<open>A thread page whose only counter is labelled in kudos.\<close>

definition page_kudos :: element where
  \<open>page_kudos =
     Element [] []
       (\<lambda>s. if s = ''[aria-label*="kudo"]''
            then [Element [(''aria-label'', ''12 kudos'')] [] (\<lambda>_. [])]
            else [])\<close>

text \<open>A forum with these two thread pages; every other URL times out.\<close>

definition sample_world :: world where
  "sample_world =
     \<lparr>page = (\<lambda>url. if url = ''https://forum.example/t/export-101'' then Inr page_two_accepted
                   else if url = ''https://forum.example/t/kudos-102'' then Inr page_kudos
                   else Inl ''timeout''),
      now = (\<lambda>url. ''2024-01-01 00:00:00''),
      listing = (\<lambda>k. []),
      click_ok = (\<lambda>k. False)\<rparr>"



text \<open>A listing that never changes and whose load-more control can always be clicked.\<close>

definition fixed_world :: world where
  "fixed_world =
     \<lparr>page = (\<lambda>url. Inl ''timeout''),
      now = (\<lambda>url. ''2024-01-01 00:00:00''),
      listing = (\<lambda>k. [''/t/export-101'', ''/t/kudos-102?sort=new'']),
      click_ok = (\<lambda>k. True)\<rparr>"

text \<open>
  A listing of five thread links with no load-more control; two of the threads are the
  pages above, the other three time out.
\<close>

definition crawl_world :: world where
  "crawl_world =
     sample_world\<lparr>listing := (\<lambda>k. [''/t/export-101'', ''/t/gone-201'', ''/t/kudos-102'',
                                    ''/t/gone-202'', ''/t/gone-203''])\<rparr>"

text \<open>
  Python's answers on the date strings of the examples below, with positions on the time
  line counted in days from 2023-01-01; no other date string is parsed there.
\<close>

definition sample_dates_lib :: pylib where
  "sample_dates_lib =
     \<lparr>strptime = (\<lambda>raw fmt.
        if fmt = ''%Y-%m-%d'' \<and> raw = ''2023-01-01'' then Some 0
        else if fmt = ''%Y-%m-%d'' \<and> raw = ''2023-06-01'' then Some 151
        else if fmt = ''%Y-%m-%d'' \<and> raw = ''2023-07-01'' then Some 181
        else if fmt = ''%Y-%m-%d %H:%M:%S'' \<and> raw = ''2023-01-01 00:00:00'' then Some 0
        else if fmt = ''%Y-%m-%d %H:%M:%S'' \<and> raw = ''2023-07-01 00:00:00'' then Some 181
        else None),
      fromisoformat = (\<lambda>raw.
        if raw = ''2023-06-01T00:00:00+00:00'' then Some (Aware 151) else None),
      strftime = (\<lambda>d.
        case d of
          Naive t \<Rightarrow> if t = 0 then ''2023-01-01 00:00:00''
                     else if t = 181 then ''2023-07-01 00:00:00'' else []
        | Aware t \<Rightarrow> [])\<rparr>"

text \<open>A thread page whose only content is its post date.\<close>

definition dated_page :: "string \<Rightarrow> element" where
  "dated_page d =
     Element [] []
       (\<lambda>s. if s = ''time[datetime]'' then [Element [(''datetime'', d)] [] (\<lambda>_. [])] else [])"

text \<open>Three dated threads: one of July 2023, one of January 2023, one with no readable date.\<close>

definition dated_world :: world where
  "dated_world =
     \<lparr>page = (\<lambda>url. if url = ''https://forum.example/t/july-301'' then Inr (dated_page ''2023-07-01'')
                   else if url = ''https://forum.example/t/january-302''
                   then Inr (dated_page ''2023-01-01'')
                   else if url = ''https://forum.example/t/undated-303''
                   then Inr (dated_page ''last week'')
                   else Inl ''timeout''),
      now = (\<lambda>url. ''2024-01-01 00:00:00''),
      listing = (\<lambda>k. [''/t/july-301'', ''/t/january-302'', ''/t/undated-303'']),
      click_ok = (\<lambda>k. False)\<rparr>"

text \<open>The example forum with \<open>--since\<close> given, parsed as the constructor does.\<close>

definition since_config :: "string \<Rightarrow> config" where
  "since_config since = forum_config\<lparr>since_dt := parse_date sample_dates_lib (Some since)\<rparr>"

section \<open>Selector chains: results\<close>

lemma select_text_chain_first_nonempty:
  "select_text_chain soup chain =
     first_nonempty_text (selector_yield get_text_strip soup) (filter (\<lambda>s. s \<noteq> []) chain)"
  by (induction chain)
     (auto simp: first_nonempty_text_def selector_yield_def Let_def split: option.splits)

lemma description_chain_first_present:
  "description_chain soup chain = first_present_text get_text_lines soup chain"
  by (induction chain)
     (auto simp: first_present_text_def selector_yield_def split: option.splits)

text \<open>
  C2 (as stated, for the description chain): extraction returns the text of the first
  selector yielding non-empty text. On a page whose first body wrapper is present but
  empty and whose second one holds the post, the description is empty, where the stated
  policy gives the post's text.
\<close>

theorem description_stops_at_empty_element:
  "extract_description None page_empty_wrapper = []
   \<and> first_nonempty_text (selector_yield get_text_lines page_empty_wrapper)
        (description_selectors None) = ''How do I export?''"
  by (simp add: extract_description_def description_selectors_def
      default_description_selectors_def first_nonempty_text_def selector_yield_def
      select_one_def page_empty_wrapper_def leaf_def get_text_lines_def
      stripped_strings_def py_strip_def is_space_def)

text \<open>
  C2 (amended): the selector chains read by \<open>_select_text\<close> (title, author) return the text
  of the first non-empty selector that yields non-empty text, falling through a selector
  whose element is absent or whose text is empty, and the empty string when none does;
  the description chain returns the newline-joined text of the first selector whose
  element is present, even when that text is empty, and the empty string when no element
  is present.
\<close>

theorem selector_chain_fallback:
  "select_text soup sc =
     first_nonempty_text (selector_yield get_text_strip soup)
       (filter (\<lambda>s. s \<noteq> []) (as_list sc))
   \<and> extract_description configured soup =
     first_present_text get_text_lines soup (description_selectors configured)"
  by (simp add: select_text_def extract_description_def select_text_chain_first_nonempty
      description_chain_first_present)

section \<open>Thread extraction: results\<close>

lemma dict_get_dict_set:
  "dict_get (dict_set d k v) k' = (if k' = k then v else dict_get d k')"
  by (induction d) (auto simp: dict_get_def)

lemma find_append_last:
  "find P (xs @ [x]) =
     (case find P xs of None \<Rightarrow> (if P x then Some x else None) | Some y \<Rightarrow> Some y)"
  by (induction xs) auto

text \<open>The reply loop touches two keys only.\<close>

lemma add_replies_other:
  "k \<noteq> ''accepted_answer'' \<Longrightarrow> k \<noteq> ''comments'' \<Longrightarrow>
     dict_get (add_replies thread replies) k = dict_get thread k"
  by (induction replies arbitrary: thread) (auto simp: dict_get_dict_set Let_def)

text \<open>Every accepted reply overwrites the accepted answer, so the last one stays.\<close>

lemma add_replies_accepted:
  "dict_get (add_replies thread replies) ''accepted_answer'' =
     (case last_accepted replies of
        None \<Rightarrow> dict_get thread ''accepted_answer''
      | Some reply \<Rightarrow> JDict reply)"
proof (induction replies arbitrary: thread)
  case Nil
  show ?case by (simp add: last_accepted_def)
next
  case (Cons reply rest)
  show ?case
    by (simp add: Cons.IH Let_def dict_get_dict_set last_accepted_def find_append_last
        accepted_def split: option.splits)
qed

lemma thread_fields_get:
  "dict_get (thread_fields lib cfg w url soup) ''accepted_answer'' = JNull"
  "dict_get (thread_fields lib cfg w url soup) ''likes'' =
     JInt (int_or (extract_stat soup ''like'') (extract_stat soup ''kudo''))"
  by (simp_all add: thread_fields_def dict_get_def)

lemma extract_thread_accepted_answer:
  "page w url = Inr soup \<Longrightarrow>
     dict_get (extract_thread lib cfg w url) ''accepted_answer'' =
       (case last_accepted (extract_replies lib cfg soup) of
          None \<Rightarrow> JNull
        | Some reply \<Rightarrow> JDict reply)"
  by (simp add: extract_thread_def Let_def dict_get_dict_set add_replies_accepted
      thread_fields_get split: option.splits)

lemma replies_of_page_two_accepted:
  "extract_replies no_dates_lib forum_config page_two_accepted =
     [[(''author'', JStr ''ann''), (''date'', JStr []), (''text'', JStr ''Use the export menu.''),
       (''is_accepted'', JBool True), (''likes'', JInt 0)],
      [(''author'', JStr ''bob''), (''date'', JStr []), (''text'', JStr ''Thanks!''),
       (''is_accepted'', JBool False), (''likes'', JInt 0)],
      [(''author'', JStr ''cy''), (''date'', JStr []), (''text'', JStr ''Or press Ctrl+E.''),
       (''is_accepted'', JBool True), (''likes'', JInt 0)]]"
  by (simp add: extract_replies_def extract_reply_def forum_config_def page_two_accepted_def
      reply_item_def leaf_def get_or_def select_one_def get_text_strip_def get_text_lines_def
      stripped_strings_def py_strip_def is_space_def role_suffixes_def
      default_accepted_markers_def datetime_attr_def dict_get_def attr_def newline_def)

text \<open>
  C1 (as stated): the accepted answer is the first reply whose accepted flag is true. On
  the page with two accepted replies the thread's accepted answer is the reply of cy, the
  later one, while the first accepted reply is the reply of ann.
\<close>

theorem accepted_answer_not_first:
  "dict_get (extract_thread no_dates_lib forum_config sample_world
       ''https://forum.example/t/export-101'') ''accepted_answer'' =
     JDict [(''author'', JStr ''cy''), (''date'', JStr []), (''text'', JStr ''Or press Ctrl+E.''),
            (''is_accepted'', JBool True), (''likes'', JInt 0)]
   \<and> first_accepted (extract_replies no_dates_lib forum_config page_two_accepted) =
     Some [(''author'', JStr ''ann''), (''date'', JStr []), (''text'', JStr ''Use the export menu.''),
           (''is_accepted'', JBool True), (''likes'', JInt 0)]"
proof -
  have "page sample_world ''https://forum.example/t/export-101'' = Inr page_two_accepted"
    by (simp add: sample_world_def)
  from extract_thread_accepted_answer [OF this, of no_dates_lib forum_config]
  show ?thesis
    by (simp add: replies_of_page_two_accepted last_accepted_def first_accepted_def
        accepted_def dict_get_def)
qed

text \<open>
  C1 (amended): for every extracted thread page, the thread's accepted answer is the last
  reply in document order whose accepted flag is true (every accepted reply overwrites the
  field), and it is null when no reply has the accepted flag true.
\<close>

theorem accepted_answer_is_last:
  "page w url = Inr soup \<Longrightarrow>
     dict_get (extract_thread lib cfg w url) ''accepted_answer'' =
       (case last_accepted (extract_replies lib cfg soup) of
          None \<Rightarrow> JNull
        | Some reply \<Rightarrow> JDict reply)"
  by (rule extract_thread_accepted_answer)

theorem accepted_answer_is_last_witness:
  "page sample_world ''https://forum.example/t/export-101'' = Inr page_two_accepted
   \<and> dict_get (extract_thread no_dates_lib forum_config sample_world
         ''https://forum.example/t/export-101'') ''accepted_answer'' =
       JDict [(''author'', JStr ''cy''), (''date'', JStr []), (''text'', JStr ''Or press Ctrl+E.''),
              (''is_accepted'', JBool True), (''likes'', JInt 0)]
   \<and> page sample_world ''https://forum.example/t/kudos-102'' = Inr page_kudos
   \<and> dict_get (extract_thread no_dates_lib forum_config sample_world
         ''https://forum.example/t/kudos-102'') ''accepted_answer'' = JNull"
proof -
  have p1: "page sample_world ''https://forum.example/t/export-101'' = Inr page_two_accepted"
    and p2: "page sample_world ''https://forum.example/t/kudos-102'' = Inr page_kudos"
    by (simp_all add: sample_world_def)
  have none: "extract_replies no_dates_lib forum_config page_kudos = []"
    by (simp add: extract_replies_def forum_config_def page_kudos_def get_or_def)
  show ?thesis
    using accepted_answer_is_last [OF p1, of no_dates_lib forum_config]
      accepted_answer_is_last [OF p2, of no_dates_lib forum_config] p1 p2
    by (simp add: replies_of_page_two_accepted none last_accepted_def accepted_def
        dict_get_def)
qed

text \<open>
  C10: for every extracted thread page, the thread's likes are the numeric stat for the
  keyword \<open>like\<close> when that is not zero, and the numeric stat for the keyword \<open>kudo\<close>
  otherwise.
\<close>

theorem likes_like_then_kudo:
  "page w url = Inr soup \<Longrightarrow>
     dict_get (extract_thread lib cfg w url) ''likes'' =
       JInt (if extract_stat soup ''like'' \<noteq> 0 then extract_stat soup ''like''
             else extract_stat soup ''kudo'')"
  by (simp add: extract_thread_def Let_def dict_get_dict_set add_replies_other
      thread_fields_get int_or_def)

lemma stat_like_of_page_kudos: "extract_stat page_kudos ''like'' = 0"
  by (simp add: extract_stat_def page_kudos_def select_one_def Let_def)

lemma stat_kudo_of_page_kudos: "extract_stat page_kudos ''kudo'' = 12"
  by (simp add: extract_stat_def page_kudos_def select_one_def Let_def stat_of_text_def
      get_or_def attr_def get_text_strip_def stripped_strings_def is_digit_def py_int_def
      digit_value_def)

theorem likes_like_then_kudo_witness:
  "page sample_world ''https://forum.example/t/kudos-102'' = Inr page_kudos
   \<and> dict_get (extract_thread no_dates_lib forum_config sample_world
         ''https://forum.example/t/kudos-102'') ''likes'' = JInt 12"
proof -
  have p: "page sample_world ''https://forum.example/t/kudos-102'' = Inr page_kudos"
    by (simp add: sample_world_def)
  show ?thesis
    using likes_like_then_kudo [OF p, of no_dates_lib forum_config] p
    by (simp add: stat_like_of_page_kudos stat_kudo_of_page_kudos)
qed

section \<open>URL discovery: results\<close>

lemmas discovery_eval =
  discover_def discovery_round_def canonical_href_def startswith_def is_digit_def
  newline_def test_limit_reached_def max_pages_reached_def get_or_def Let_def py_prefix_def

lemma set_first_seen [simp]: "set (first_seen xs) = set xs"
  by (induction xs rule: first_seen.induct) auto

lemma distinct_first_seen [simp]: "distinct (first_seen xs)"
  by (induction xs rule: first_seen.induct) auto

lemma removeAll_filter_conj:
  "removeAll x (filter P ys) = filter (\<lambda>y. P y \<and> y \<noteq> x) ys"
  by (induction ys) auto

lemma first_seen_append:
  "first_seen (xs @ ys) = first_seen xs @ first_seen (filter (\<lambda>y. y \<notin> set xs) ys)"
proof (induction xs arbitrary: ys rule: first_seen.induct)
  case 1
  show ?case by simp
next
  case (2 x xs)
  have "filter (\<lambda>y. y \<notin> set (removeAll x xs)) (removeAll x ys) = filter (\<lambda>y. y \<notin> set (x # xs)) ys"
    by (induction ys) auto
  with 2 [of "removeAll x ys"] show ?case by simp
qed

lemma scan_links_eq:
  "scan_links cfg links (u, set u, n) =
     (u @ first_seen (filter (\<lambda>y. y \<notin> set u) (accepted_hrefs cfg links)),
      set u \<union> set (accepted_hrefs cfg links),
      n + length (first_seen (filter (\<lambda>y. y \<notin> set u) (accepted_hrefs cfg links))))"
proof (induction links arbitrary: u n)
  case Nil
  show ?case by (simp add: accepted_hrefs_def)
next
  case (Cons link links)
  have ins: "insert (canonical_href cfg link) (set u) = set (u @ [canonical_href cfg link])"
    by simp
  show ?case
    unfolding scan_links.simps Let_def
    apply (simp only: ins Cons.IH split: if_splits)
    apply (auto simp: accepted_hrefs_def removeAll_filter_conj conj_ac)
    done
qed

lemma scanned_Suc:
  "scanned cfg w (Suc k) = scanned cfg w k @ accepted_hrefs cfg (listing w k)"
  by (simp add: scanned_def)

lemma scan_round:
  "scan_links cfg (listing w k) (collected cfg w k, set (collected cfg w k), 0) =
     (collected cfg w (Suc k), set (collected cfg w (Suc k)),
      length (collected cfg w (Suc k)) - length (collected cfg w k))"
  using scan_links_eq [of cfg "listing w k" "collected cfg w k" 0]
  by (auto simp: collected_def scanned_Suc first_seen_append)

lemma length_collected_mono: "length (collected cfg w k) \<le> length (collected cfg w (Suc k))"
  by (simp add: collected_def scanned_Suc first_seen_append)

lemma round_at:
  "discovery_round cfg w (state_at cfg w k) =
     (case decision cfg w k of
        Some reason \<Rightarrow> Halt (outcome_at cfg w k reason)
      | None \<Rightarrow> Advance (state_at cfg w (Suc k)))"
  using length_collected_mono [of cfg w k]
  by (simp add: discovery_round_def state_at_def scan_round decision_def outcome_at_def)

lemma loop_trace:
  assumes run: "discovery_loop cfg w st = Some out"
  shows "\<forall>k0. st = state_at cfg w k0 \<longrightarrow>
     (\<exists>k reason. k0 \<le> k \<and> decision cfg w k = Some reason \<and> out = outcome_at cfg w k reason
        \<and> (\<forall>j. k0 \<le> j \<and> j < k \<longrightarrow> decision cfg w j = None))"
    (is "?P cfg w st out")
proof (rule discovery_loop.raw_induct [OF _ run, where P = ?P])
  fix loop cfg w st out
  assume IH: "\<And>cfg w st out. loop cfg w st = Some out \<Longrightarrow> ?P cfg w st out"
    and step: "(case discovery_round cfg w st of Halt out \<Rightarrow> Some out
                | Advance st' \<Rightarrow> loop cfg w st') = Some out"
  show "?P cfg w st out"
  proof (intro allI impI)
    fix k0 assume st: "st = state_at cfg w k0"
    show "\<exists>k reason. k0 \<le> k \<and> decision cfg w k = Some reason \<and> out = outcome_at cfg w k reason
        \<and> (\<forall>j. k0 \<le> j \<and> j < k \<longrightarrow> decision cfg w j = None)"
    proof (cases "decision cfg w k0")
      case None
      with step st have "loop cfg w (state_at cfg w (Suc k0)) = Some out"
        by (simp add: round_at)
      from IH [OF this] obtain k reason where
        k: "Suc k0 \<le> k" "decision cfg w k = Some reason" "out = outcome_at cfg w k reason"
          "\<forall>j. Suc k0 \<le> j \<and> j < k \<longrightarrow> decision cfg w j = None"
        by blast
      have "\<forall>j. k0 \<le> j \<and> j < k \<longrightarrow> decision cfg w j = None"
      proof (intro allI impI)
        fix j assume "k0 \<le> j \<and> j < k"
        then show "decision cfg w j = None"
          using k(4) None by (cases "j = k0") auto
      qed
      with k show ?thesis by (intro exI [of _ k] exI [of _ reason]) auto
    next
      case (Some reason)
      with step st have "out = outcome_at cfg w k0 reason"
        by (simp add: round_at)
      with Some show ?thesis by (intro exI [of _ k0] exI [of _ reason]) auto
    qed
  qed
qed

lemma loop_halts:
  "decision cfg w (k0 + n) = Some reason \<Longrightarrow>
   (\<forall>j. k0 \<le> j \<and> j < k0 + n \<longrightarrow> decision cfg w j = None) \<Longrightarrow>
     discovery_loop cfg w (state_at cfg w k0) = Some (outcome_at cfg w (k0 + n) reason)"
proof (induction n arbitrary: k0)
  case 0
  then show ?case by (subst discovery_loop.simps) (simp add: round_at)
next
  case (Suc n)
  have "decision cfg w k0 = None" using Suc.prems(2) by simp
  moreover have "discovery_loop cfg w (state_at cfg w (Suc k0)) =
      Some (outcome_at cfg w (Suc k0 + n) reason)"
    using Suc.prems by (intro Suc.IH) auto
  ultimately show ?case by (subst discovery_loop.simps) (simp add: round_at)
qed

lemma state_at_0: "state_at cfg w 0 = \<lparr>urls = [], seen = {}, click_count = 0, stale_rounds = 0\<rparr>"
  by (simp add: state_at_def collected_def scanned_def)

lemma discover_trace:
  assumes "discover cfg w = Some out"
  shows "\<exists>k reason. decision cfg w k = Some reason \<and> out = outcome_at cfg w k reason
        \<and> (\<forall>j. j < k \<longrightarrow> decision cfg w j = None)"
proof -
  have "discovery_loop cfg w (state_at cfg w 0) = Some out"
    using assms by (simp add: discover_def state_at_0)
  from loop_trace [OF this] have
    "\<exists>k reason. 0 \<le> k \<and> decision cfg w k = Some reason \<and> out = outcome_at cfg w k reason
        \<and> (\<forall>j. 0 \<le> j \<and> j < k \<longrightarrow> decision cfg w j = None)"
    by blast
  then show ?thesis by simp
qed

lemma discover_halts:
  "decision cfg w k = Some reason \<Longrightarrow> (\<forall>j. j < k \<longrightarrow> decision cfg w j = None) \<Longrightarrow>
     discover cfg w = Some (outcome_at cfg w k reason)"
  using loop_halts [of cfg w 0 k reason]
  by (simp add: discover_def state_at_0)










lemma scan_links_count:
  "scan_links cfg links (u, sn, n) = (u', sn', n') \<Longrightarrow> length u' + n = length u + n'"
proof (induction links arbitrary: u sn n)
  case Nil
  then show ?case by simp
next
  case (Cons link links)
  then show ?case
    by (auto simp: Let_def split: if_splits dest: Cons.IH)
qed

lemma round_stale:
  "result_stale (discovery_round cfg w st) =
     (if length (fst (scan_links cfg (listing w (click_count st)) (urls st, seen st, 0)))
           = length (urls st)
      then stale_rounds st + 1 else 0)"
proof -
  obtain u' sn' n' where
    sc: "scan_links cfg (listing w (click_count st)) (urls st, seen st, 0) = (u', sn', n')"
    by (cases "scan_links cfg (listing w (click_count st)) (urls st, seen st, 0)")
  from scan_links_count [OF sc] have "length u' = length (urls st) + n'" by simp
  then show ?thesis
    by (simp add: discovery_round_def sc)
qed








lemma collected_0: "collected cfg w 0 = []"
  by (simp add: collected_def scanned_def)

lemma decision_cases:
  assumes "decision cfg w k = Some reason"
  shows "(case reason of
       TestLimit \<Rightarrow> test_limit_reached cfg (length (collected cfg w (Suc k)))
     | MaxPages \<Rightarrow> \<not> test_limit_reached cfg (length (collected cfg w (Suc k)))
         \<and> max_pages_reached cfg k
     | StaleRounds \<Rightarrow> \<not> test_limit_reached cfg (length (collected cfg w (Suc k)))
         \<and> \<not> max_pages_reached cfg k
         \<and> max_stale_rounds cfg \<le> int (stale_before cfg w (Suc k))
     | ButtonUnavailable \<Rightarrow> \<not> test_limit_reached cfg (length (collected cfg w (Suc k)))
         \<and> \<not> max_pages_reached cfg k
         \<and> \<not> max_stale_rounds cfg \<le> int (stale_before cfg w (Suc k))
         \<and> \<not> click_ok w k)"
  using assms by (auto simp: decision_def split: if_splits)

lemma decision_None:
  "decision cfg w j = None \<Longrightarrow>
     \<not> test_limit_reached cfg (length (collected cfg w (Suc j)))
     \<and> \<not> max_pages_reached cfg j
     \<and> \<not> max_stale_rounds cfg \<le> int (stale_before cfg w (Suc j))
     \<and> click_ok w j"
  by (auto simp: decision_def split: if_splits)





lemma fixed_collected:
  assumes "\<forall>k. listing w k = links"
  shows "collected cfg w (Suc k) = first_seen (accepted_hrefs cfg links)"
proof (induction k)
  case 0
  show ?case using assms by (simp add: collected_def scanned_def)
next
  case (Suc k)
  have "set (first_seen (scanned cfg w (Suc k))) = set (first_seen (accepted_hrefs cfg links))"
    using Suc.IH by (simp only: collected_def)
  then have "set (scanned cfg w (Suc k)) = set (accepted_hrefs cfg links)"
    by simp
  then have "filter (\<lambda>y. y \<notin> set (scanned cfg w (Suc k))) (accepted_hrefs cfg links) = []"
    by (simp add: filter_empty_conv)
  then show ?case
    using Suc.IH assms
    by (simp add: collected_def scanned_Suc [of cfg w "Suc k"] first_seen_append)
qed

declare stale_before.simps [simp del]

lemma fixed_stale:
  assumes "\<forall>k. listing w k = links"
  shows "stale_before cfg w (Suc k) =
     k + (if first_seen (accepted_hrefs cfg links) = [] then 1 else 0)"
proof (induction k)
  case 0
  show ?case by (simp add: stale_before.simps fixed_collected [OF assms] collected_0)
next
  case (Suc k)
  then show ?case by (simp add: stale_before.simps(2) [of cfg w "Suc k"] fixed_collected [OF assms])
qed

lemma max_pages_mono:
  "\<not> max_pages_reached cfg n \<Longrightarrow> k \<le> n \<Longrightarrow> \<not> max_pages_reached cfg k"
  by (auto simp: max_pages_reached_def split: option.splits)

lemma fixed_page_halts:
  assumes fixed: "\<forall>k. listing w k = links"
    and clicks: "\<forall>k. click_ok w k"
    and n: "1 \<le> max_stale_rounds cfg"
    and no_limit: "\<not> test_limit_reached cfg (length (first_seen (accepted_hrefs cfg links)))"
    and no_max: "\<not> max_pages_reached cfg (nat (max_stale_rounds cfg))"
  shows "discover cfg w =
     Some \<lparr>out_urls = first_seen (accepted_hrefs cfg links),
           out_clicks = nat (max_stale_rounds cfg)
             - (if first_seen (accepted_hrefs cfg links) = [] then 1 else 0),
           out_stale = nat (max_stale_rounds cfg),
           out_reason = StaleRounds\<rparr>"
proof -
  let ?U = "first_seen (accepted_hrefs cfg links)"
  let ?e = "if ?U = [] then 1 else 0 :: nat"
  let ?n = "nat (max_stale_rounds cfg)"
  have dec: "decision cfg w k =
      (if max_stale_rounds cfg \<le> int (k + ?e) then Some StaleRounds else None)"
    if "k \<le> ?n" for k
    using that no_limit max_pages_mono [OF no_max that] clicks
    by (simp add: decision_def fixed_collected [OF fixed] fixed_stale [OF fixed])
  have last: "decision cfg w (?n - ?e) = Some StaleRounds"
    using n by (subst dec) auto
  have before: "\<forall>j. j < ?n - ?e \<longrightarrow> decision cfg w j = None"
  proof (intro allI impI)
    fix j assume "j < ?n - ?e"
    then have "j \<le> ?n" "\<not> max_stale_rounds cfg \<le> int (j + ?e)" by auto
    then show "decision cfg w j = None" by (simp add: dec)
  qed
  have "outcome_at cfg w (?n - ?e) StaleRounds =
      \<lparr>out_urls = ?U, out_clicks = ?n - ?e, out_stale = ?n, out_reason = StaleRounds\<rparr>"
    using n by (simp add: outcome_at_def fixed_collected [OF fixed] fixed_stale [OF fixed])
  with discover_halts [OF last before] show ?thesis by simp
qed

lemma stale_before_step: "stale_before cfg w (Suc k) \<le> stale_before cfg w k + 1"
  by (simp add: stale_before.simps)

lemma stale_halt_exact:
  assumes "discover cfg w = Some out" and "out_reason out = StaleRounds"
    and "1 \<le> max_stale_rounds cfg"
  shows "int (out_stale out) = max_stale_rounds cfg"
proof -
  from discover_trace [OF assms(1)] obtain k reason where
    dec: "decision cfg w k = Some reason" and out: "out = outcome_at cfg w k reason"
    and before: "\<forall>j. j < k \<longrightarrow> decision cfg w j = None" by blast
  have r: "reason = StaleRounds" using assms(2) by (simp add: out outcome_at_def)
  have s: "out_stale out = stale_before cfg w (Suc k)" by (simp add: out outcome_at_def)
  from decision_cases [OF dec] r
  have ge: "max_stale_rounds cfg \<le> int (stale_before cfg w (Suc k))" by simp
  have le: "int (stale_before cfg w (Suc k)) \<le> max_stale_rounds cfg"
  proof (cases k)
    case 0
    have "stale_before cfg w (Suc 0) \<le> 1" by (simp add: stale_before.simps)
    with assms(3) 0 show ?thesis by simp
  next
    case (Suc j)
    with before have "decision cfg w j = None" by simp
    from decision_None [OF this]
    have "int (stale_before cfg w (Suc j)) < max_stale_rounds cfg" by simp
    with stale_before_step [of cfg w "Suc j"] Suc show ?thesis by simp
  qed
  from ge le s show ?thesis by simp
qed

text \<open>
  C3: a round that adds no URL increments the stale-round counter and a round that adds
  one resets it to 0. On a listing page that never changes, with the load-more control
  always clickable and neither the test limit nor the click limit reached, discovery
  stops by the stale-round condition with the counter equal to the threshold \<open>N\<close>, after
  \<open>N\<close> rounds without growth. And whenever discovery stops by the stale-round
  condition, on any listing, the counter equals the threshold. The threshold is at
  least 1.
\<close>

theorem stale_round_accounting:
  "result_stale (discovery_round cfg w st) =
     (if length (fst (scan_links cfg (listing w (click_count st)) (urls st, seen st, 0)))
           = length (urls st)
      then stale_rounds st + 1 else 0)
   \<and> ((\<forall>k. listing w k = links) \<and> (\<forall>k. click_ok w k)
        \<and> 1 \<le> max_stale_rounds cfg
        \<and> \<not> test_limit_reached cfg (length (first_seen (accepted_hrefs cfg links)))
        \<and> \<not> max_pages_reached cfg (nat (max_stale_rounds cfg))
      \<longrightarrow> discover cfg w =
            Some \<lparr>out_urls = first_seen (accepted_hrefs cfg links),
                  out_clicks = nat (max_stale_rounds cfg)
                    - (if first_seen (accepted_hrefs cfg links) = [] then 1 else 0),
                  out_stale = nat (max_stale_rounds cfg),
                  out_reason = StaleRounds\<rparr>)
   \<and> (discover cfg w = Some out \<and> out_reason out = StaleRounds
        \<and> 1 \<le> max_stale_rounds cfg
      \<longrightarrow> int (out_stale out) = max_stale_rounds cfg)"
  using round_stale [of cfg w st] fixed_page_halts [of w links cfg]
    stale_halt_exact [of cfg w out]
  by blast

theorem stale_round_accounting_witness:
  "discover forum_config fixed_world =
     Some \<lparr>out_urls = [''https://forum.example/t/export-101'',
                        ''https://forum.example/t/kudos-102''],
           out_clicks = 3, out_stale = 3, out_reason = StaleRounds\<rparr>
   \<and> result_stale (discovery_round forum_config fixed_world
         \<lparr>urls = [], seen = {}, click_count = 0, stale_rounds = 0\<rparr>) = 0"
proof -
  have U: "first_seen (accepted_hrefs forum_config
              [''/t/export-101'', ''/t/kudos-102?sort=new'']) =
      [''https://forum.example/t/export-101'', ''https://forum.example/t/kudos-102'']"
    by (simp add: accepted_hrefs_def discovery_eval forum_config_def)
  have h: "(\<forall>k. listing fixed_world k = [''/t/export-101'', ''/t/kudos-102?sort=new''])
      \<and> (\<forall>k. click_ok fixed_world k) \<and> 1 \<le> max_stale_rounds forum_config
      \<and> \<not> test_limit_reached forum_config (length (first_seen (accepted_hrefs forum_config
              [''/t/export-101'', ''/t/kudos-102?sort=new''])))
      \<and> \<not> max_pages_reached forum_config (nat (max_stale_rounds forum_config))"
    by (simp add: fixed_world_def forum_config_def test_limit_reached_def
        max_pages_reached_def)
  have s: "length (fst (scan_links forum_config (listing fixed_world 0) ([], {}, 0))) \<noteq> 0"
    by (simp add: fixed_world_def discovery_eval forum_config_def)
  have n: "nat (max_stale_rounds forum_config) = 3" by (simp add: forum_config_def)
  note T = stale_round_accounting [of forum_config fixed_world
        "\<lparr>urls = [], seen = {}, click_count = 0, stale_rounds = 0\<rparr>"
        "[''/t/export-101'', ''/t/kudos-102?sort=new'']"]
  from T h have "discover forum_config fixed_world =
      Some \<lparr>out_urls = first_seen (accepted_hrefs forum_config
                [''/t/export-101'', ''/t/kudos-102?sort=new'']),
            out_clicks = nat (max_stale_rounds forum_config)
              - (if first_seen (accepted_hrefs forum_config
                    [''/t/export-101'', ''/t/kudos-102?sort=new'']) = [] then 1 else 0),
            out_stale = nat (max_stale_rounds forum_config),
            out_reason = StaleRounds\<rparr>"
    by blast
  then have run: "discover forum_config fixed_world =
     Some \<lparr>out_urls = [''https://forum.example/t/export-101'',
                        ''https://forum.example/t/kudos-102''],
           out_clicks = 3, out_stale = 3, out_reason = StaleRounds\<rparr>"
    by (simp add: U n)
  from T have "result_stale (discovery_round forum_config fixed_world
         \<lparr>urls = [], seen = {}, click_count = 0, stale_rounds = 0\<rparr>) =
     (if length (fst (scan_links forum_config (listing fixed_world 0) ([], {}, 0))) = 0
      then 0 + 1 else 0)"
    by simp
  with s run show ?thesis by simp
qed



section \<open>The run: results\<close>

lemma dt_ge_error: "dt_ge a b = Inl e \<Longrightarrow> e = TypeError"
  by (cases a; cases b) auto

lemma keep_decision_error: "keep_decision lib cfg thread = Inl e \<Longrightarrow> e = TypeError"
  by (auto simp: keep_decision_def is_after_since_def dt_ge_error
      split: if_splits option.splits)

lemma keep_decision_defined:
  "keep_decision lib cfg thread \<noteq> Inl TypeError \<Longrightarrow> \<exists>b. keep_decision lib cfg thread = Inr b"
  by (cases "keep_decision lib cfg thread") (auto dest: keep_decision_error)

lemma run_loop_log:
  "run_loop lib cfg w i us threads log =
     (case run_loop lib cfg w i us threads [] of (r, l) \<Rightarrow> (r, log @ l))"
proof (induction us arbitrary: i threads log)
  case Nil
  show ?case by simp
next
  case (Cons u us)
  show ?case
  proof (cases "keep_decision lib cfg (extract_thread lib cfg w u)")
    case (Inl e)
    then show ?thesis by simp
  next
    case (Inr keep)
    let ?ts = "if keep then threads @ [extract_thread lib cfg w u] else threads"
    note a = Cons.IH [of "i + 1" ?ts "log @ [Extract u] @ [Save ?ts True]"]
    note b = Cons.IH [of "i + 1" ?ts "[Extract u] @ [Save ?ts True]"]
    note c = Cons.IH [of "i + 1" ?ts "log @ [Extract u]"]
    note d = Cons.IH [of "i + 1" ?ts "[Extract u]"]
    show ?thesis
      using Inr a b c d
      by (auto simp: Let_def split: prod.splits)
  qed
qed

lemma upt_filter_shift:
  "filter P [Suc m..<Suc (m + Suc n)] =
     (if P (Suc m) then [Suc m] else []) @ filter P [Suc (Suc m)..<Suc (Suc m + n)]"
  by (simp add: upt_conv_Cons [of "Suc m"] del: upt_Suc)

lemma run_loop_total:
  assumes ce: "checkpoint_every cfg \<noteq> 0"
  shows "\<forall>u\<in>set us. keep_decision lib cfg (extract_thread lib cfg w u) \<noteq> Inl TypeError \<Longrightarrow>
     \<exists>l. run_loop lib cfg w (int m + 1) us threads [] =
           (Inr (threads @ accumulated lib cfg w us), l)
        \<and> extracts_of l = us
        \<and> Quit \<notin> set l
        \<and> writes_from m l =
            map (\<lambda>k. (k, threads @ accumulated lib cfg w (take (k - m) us), True))
              (filter (\<lambda>k. checkpoint_every cfg dvd int k) [Suc m..<Suc (m + length us)])"
proof (induction us arbitrary: m threads)
  case Nil
  show ?case by (simp add: accumulated_def)
next
  case (Cons u us)
  from Cons.prems keep_decision_defined obtain keep where
    keep: "keep_decision lib cfg (extract_thread lib cfg w u) = Inr keep" by fastforce
  let ?ts = "threads @ accumulated lib cfg w [u]"
  have ts: "(if keep then threads @ [extract_thread lib cfg w u] else threads) = ?ts"
    by (simp add: accumulated_def keep)
  from Cons.prems have "\<forall>u\<in>set us. keep_decision lib cfg (extract_thread lib cfg w u) \<noteq> Inl TypeError"
    by simp
  from Cons.IH [OF this, of "Suc m" ?ts] obtain l where
    l: "run_loop lib cfg w (int (Suc m) + 1) us ?ts [] =
           (Inr (?ts @ accumulated lib cfg w us), l)"
      "extracts_of l = us" "Quit \<notin> set l"
      "writes_from (Suc m) l =
            map (\<lambda>k. (k, ?ts @ accumulated lib cfg w (take (k - Suc m) us), True))
              (filter (\<lambda>k. checkpoint_every cfg dvd int k) [Suc (Suc m)..<Suc (Suc m + length us)])"
    by blast
  have acc: "accumulated lib cfg w [u] @ accumulated lib cfg w us = accumulated lib cfg w (u # us)"
    by (simp add: accumulated_def)
  have idx: "int m + 1 + 1 = int (Suc m) + 1" by simp
  have dvd: "((int m + 1) mod checkpoint_every cfg = 0) = (checkpoint_every cfg dvd int (Suc m))"
    by (simp add: mod_eq_0_iff_dvd add.commute)
  have later: "map (\<lambda>k. (k, ?ts @ accumulated lib cfg w (take (k - Suc m) us), True))
              (filter (\<lambda>k. checkpoint_every cfg dvd int k) [Suc (Suc m)..<Suc (Suc m + length us)])
      = map (\<lambda>k. (k, threads @ accumulated lib cfg w (take (k - m) (u # us)), True))
              (filter (\<lambda>k. checkpoint_every cfg dvd int k) [Suc (Suc m)..<Suc (Suc m + length us)])"
  proof (rule map_cong [OF refl])
    fix k assume "k \<in> set (filter (\<lambda>k. checkpoint_every cfg dvd int k) [Suc (Suc m)..<Suc (Suc m + length us)])"
    then have "Suc (Suc m) \<le> k" by (simp del: upt_Suc)
    then have "k - m = Suc (k - Suc m)" by simp
    then show "(k, ?ts @ accumulated lib cfg w (take (k - Suc m) us), True) =
        (k, threads @ accumulated lib cfg w (take (k - m) (u # us)), True)"
      by (simp add: accumulated_def)
  qed
  let ?f = "\<lambda>k. (k, threads @ accumulated lib cfg w (take (k - m) (u # us)), True)"
  let ?P = "\<lambda>k. checkpoint_every cfg dvd int k"
  have range: "filter ?P [Suc m..<Suc (m + length (u # us))] =
      (if ?P (Suc m) then [Suc m] else []) @ filter ?P [Suc (Suc m)..<Suc (Suc m + length us)]"
    using upt_filter_shift [of ?P m "length us"] by simp
  have first: "?f (Suc m) = (Suc m, ?ts, True)"
    by simp
  have tail: "writes_from (Suc m) l = map ?f (filter ?P [Suc (Suc m)..<Suc (Suc m + length us)])"
    using l(4) later by simp
  show ?case
  proof (cases "checkpoint_every cfg dvd int (Suc m)")
    case True
    have "run_loop lib cfg w (int m + 1) (u # us) threads [] =
        (Inr (threads @ accumulated lib cfg w (u # us)), [Extract u, Save ?ts True] @ l)"
      using keep ce True l(1) dvd
      by (simp add: Let_def ts idx acc run_loop_log [of lib cfg w _ us _ "[Extract u, Save ?ts True]"])
    moreover have "writes_from m ([Extract u, Save ?ts True] @ l) =
        (Suc m, ?ts, True) # writes_from (Suc m) l"
      by simp
    then have "writes_from m ([Extract u, Save ?ts True] @ l) =
        map ?f (filter ?P [Suc m..<Suc (m + length (u # us))])"
      using True first by (simp only: range tail if_True list.map append.simps)
    ultimately show ?thesis using l(2,3) by (intro exI [of _ "[Extract u, Save ?ts True] @ l"]) simp
  next
    case False
    have "run_loop lib cfg w (int m + 1) (u # us) threads [] =
        (Inr (threads @ accumulated lib cfg w (u # us)), [Extract u] @ l)"
      using keep ce False l(1) dvd
      by (simp add: Let_def ts idx acc run_loop_log [of lib cfg w _ us _ "[Extract u]"])
    moreover have "writes_from m ([Extract u] @ l) = writes_from (Suc m) l"
      by simp
    then have "writes_from m ([Extract u] @ l) =
        map ?f (filter ?P [Suc m..<Suc (m + length (u # us))])"
      using False by (simp only: range tail if_False append.simps)
    ultimately show ?thesis using l(2,3) by (intro exI [of _ "[Extract u] @ l"]) simp
  qed
qed

lemma writes_from_append:
  "writes_from n (xs @ ys) = writes_from n xs @ writes_from (n + length (extracts_of xs)) ys"
  by (induction n xs rule: writes_from.induct) auto

lemma extract_thread_error:
  "page w url = Inl message \<Longrightarrow>
     extract_thread lib cfg w url =
       [(''url'', JStr url), (''error'', JStr message), (''scraped_at'', JStr (now w url))]"
  by (simp add: extract_thread_def)

lemma keep_error_record:
  "keep_decision lib cfg
     [(''url'', JStr url), (''error'', JStr message), (''scraped_at'', JStr stamp)] = Inr True"
  by (simp add: keep_decision_def is_after_since_def dict_get_def parse_date_def
      split: option.splits)

lemma keep_defined_everywhere:
  assumes "\<forall>u\<in>set us. \<forall>soup. page w u = Inr soup \<longrightarrow>
      keep_decision lib cfg (extract_thread lib cfg w u) \<noteq> Inl TypeError"
  shows "\<forall>u\<in>set us. keep_decision lib cfg (extract_thread lib cfg w u) \<noteq> Inl TypeError"
proof
  fix u assume u: "u \<in> set us"
  show "keep_decision lib cfg (extract_thread lib cfg w u) \<noteq> Inl TypeError"
  proof (cases "page w u")
    case (Inl message)
    then show ?thesis by (simp add: extract_thread_error keep_error_record)
  next
    case (Inr soup)
    with assms u show ?thesis by blast
  qed
qed

lemma run_total:
  assumes found: "collect_question_urls cfg w = Some us" and some: "us \<noteq> []"
    and ce: "checkpoint_every cfg \<noteq> 0"
    and defined: "\<forall>u\<in>set us. \<forall>soup. page w u = Inr soup \<longrightarrow>
      keep_decision lib cfg (extract_thread lib cfg w u) \<noteq> Inl TypeError"
  shows "\<exists>l. run lib cfg w =
         Some (Inr (accumulated lib cfg w us),
               l @ [Save (accumulated lib cfg w us) False, Quit])
     \<and> extracts_of l = us \<and> Quit \<notin> set l
     \<and> writes_from 0 l =
         map (\<lambda>k. (k, accumulated lib cfg w (take k us), True))
           (filter (\<lambda>k. checkpoint_every cfg dvd int k) [1..<Suc (length us)])"
proof -
  from run_loop_total [OF ce keep_defined_everywhere [OF defined], of 0 "[]"]
  obtain l where
    l: "run_loop lib cfg w 1 us [] [] = (Inr (accumulated lib cfg w us), l)"
      "extracts_of l = us" "Quit \<notin> set l"
      "writes_from 0 l =
         map (\<lambda>k. (k, accumulated lib cfg w (take k us), True))
           (filter (\<lambda>k. checkpoint_every cfg dvd int k) [1..<Suc (length us)])"
    by auto
  have "run lib cfg w =
      Some (Inr (accumulated lib cfg w us), l @ [Save (accumulated lib cfg w us) False, Quit])"
    using found some l(1) by (simp add: run_def)
  with l(2,3,4) show ?thesis by blast
qed

lemma two_of_five: "filter (\<lambda>k. (2::int) dvd int k) [1..<Suc 5] = [2, 4]"
  by (simp add: upt_rec)

text \<open>
  The checkpoint cadence on the runs that no exception leaves. When the cadence is not 0
  and the date comparisons are defined, the output file is written after the \<open>k\<close>-th
  processed URL exactly when \<open>k\<close> is a multiple of \<open>checkpoint_every\<close>, counting from
  1, and once more after the loop; every write holds all threads accumulated so far. With
  a cadence of 2 and 5 URLs there are exactly 3 writes, after the 2nd, the 4th and the 5th
  URL.
\<close>

theorem checkpoint_writes:
  assumes "collect_question_urls cfg w = Some us" and "us \<noteq> []"
    and "checkpoint_every cfg \<noteq> 0"
    and "\<forall>u\<in>set us. \<forall>soup. page w u = Inr soup \<longrightarrow>
      keep_decision lib cfg (extract_thread lib cfg w u) \<noteq> Inl TypeError"
  shows "map_option fst (run lib cfg w) = Some (Inr (accumulated lib cfg w us))
     \<and> map_option (\<lambda>r. writes_of (snd r)) (run lib cfg w) =
         Some (map (\<lambda>k. (k, accumulated lib cfg w (take k us), True))
                 (filter (\<lambda>k. checkpoint_every cfg dvd int k) [1..<Suc (length us)])
               @ [(length us, accumulated lib cfg w us, False)])
     \<and> (checkpoint_every cfg = 2 \<and> length us = 5 \<longrightarrow>
          map_option (\<lambda>r. map fst (writes_of (snd r))) (run lib cfg w) = Some [2, 4, 5])"
proof -
  from run_total [OF assms] obtain l where
    run: "run lib cfg w =
         Some (Inr (accumulated lib cfg w us),
               l @ [Save (accumulated lib cfg w us) False, Quit])"
    and ex: "extracts_of l = us"
    and wr: "writes_from 0 l =
         map (\<lambda>k. (k, accumulated lib cfg w (take k us), True))
           (filter (\<lambda>k. checkpoint_every cfg dvd int k) [1..<Suc (length us)])"
    by blast
  have all: "writes_of (l @ [Save (accumulated lib cfg w us) False, Quit]) =
      map (\<lambda>k. (k, accumulated lib cfg w (take k us), True))
        (filter (\<lambda>k. checkpoint_every cfg dvd int k) [1..<Suc (length us)])
      @ [(length us, accumulated lib cfg w us, False)]"
    by (simp only: writes_of_def writes_from_append wr ex) simp
  have five: "map fst (writes_of (l @ [Save (accumulated lib cfg w us) False, Quit])) = [2, 4, 5]"
    if "checkpoint_every cfg = 2" "length us = 5"
    using that two_of_five by (simp only: all) (simp add: comp_def)
  show ?thesis using all five by (simp add: run)
qed

lemma discover_sample_world:
  "collect_question_urls forum_config sample_world = Some []"
  by (simp add: collect_question_urls_def discovery_eval discovery_loop.simps forum_config_def
      sample_world_def)

lemma discover_crawl_world:
  "collect_question_urls forum_config crawl_world =
     Some [''https://forum.example/t/export-101'', ''https://forum.example/t/gone-201'',
           ''https://forum.example/t/kudos-102'', ''https://forum.example/t/gone-202'',
           ''https://forum.example/t/gone-203'']"
  by (simp add: collect_question_urls_def discovery_eval discovery_loop.simps forum_config_def
      crawl_world_def sample_world_def)

lemma since_config_fields:
  "thread_base (since_config since) = ''https://forum.example''"
  "max_stale_rounds (since_config since) = 3"
  "checkpoint_every (since_config since) = 2"
  "max_pages (since_config since) = None"
  "test_limit (since_config since) = None"
  "sel_date (since_config since) = None"
  by (simp_all add: since_config_def forum_config_def)

lemma discover_dated_world:
  "collect_question_urls (since_config since) dated_world =
     Some [''https://forum.example/t/july-301'', ''https://forum.example/t/january-302'',
           ''https://forum.example/t/undated-303'']"
  by (simp add: collect_question_urls_def discovery_eval discovery_loop.simps
      since_config_fields dated_world_def)

lemma since_aware:
  "since_dt (since_config ''2023-06-01T00:00:00Z'') = Some (Aware 151)"
  by (simp add: since_config_def parse_date_def py_strip_def is_space_def date_formats_def
      sample_dates_lib_def replace_Z_def)

lemma since_naive:
  "since_dt (since_config ''2023-06-01'') = Some (Naive 151)"
  by (simp add: since_config_def parse_date_def py_strip_def is_space_def date_formats_def
      sample_dates_lib_def)

lemma extract_thread_get:
  assumes "page w url = Inr soup"
  shows "dict_get (extract_thread lib cfg w url) ''error'' = JNull"
    and "dict_get (extract_thread lib cfg w url) ''date_posted'' =
       JStr (extract_post_date lib cfg soup)"
  using assms
  by (simp_all add: extract_thread_def Let_def dict_get_dict_set add_replies_other)
     (simp_all add: thread_fields_def dict_get_def)

lemma post_date_of_dated_page:
  "extract_post_date sample_dates_lib (since_config since) (dated_page ''2023-07-01'') =
     ''2023-07-01 00:00:00''"
  "extract_post_date sample_dates_lib (since_config since) (dated_page ''2023-01-01'') =
     ''2023-01-01 00:00:00''"
  "extract_post_date sample_dates_lib (since_config since) (dated_page ''last week'') =
     ''last week''"
  by (simp_all add: extract_post_date_def since_config_fields get_or_def datetime_attr_def
      dated_page_def select_one_def attr_def normalise_date_def parse_date_def py_strip_def
      is_space_def date_formats_def sample_dates_lib_def replace_Z_def)

lemma parse_posted:
  "parse_date sample_dates_lib (Some ''2023-07-01 00:00:00'') = Some (Naive 181)"
  "parse_date sample_dates_lib (Some ''2023-01-01 00:00:00'') = Some (Naive 0)"
  "parse_date sample_dates_lib (Some ''last week'') = None"
  by (simp_all add: parse_date_def py_strip_def is_space_def date_formats_def
      sample_dates_lib_def replace_Z_def)

lemma pages_of_dated_world:
  "page dated_world ''https://forum.example/t/july-301'' = Inr (dated_page ''2023-07-01'')"
  "page dated_world ''https://forum.example/t/january-302'' = Inr (dated_page ''2023-01-01'')"
  "page dated_world ''https://forum.example/t/undated-303'' = Inr (dated_page ''last week'')"
  by (simp_all add: dated_world_def)

lemma keep_july_aware:
  "keep_decision sample_dates_lib (since_config ''2023-06-01T00:00:00Z'')
     (extract_thread sample_dates_lib (since_config ''2023-06-01T00:00:00Z'') dated_world
        ''https://forum.example/t/july-301'') = Inl TypeError"
  by (simp add: keep_decision_def is_after_since_def since_aware
      extract_thread_get [OF pages_of_dated_world(1)] post_date_of_dated_page parse_posted)

lemma keep_naive:
  "keep_decision sample_dates_lib (since_config ''2023-06-01'')
     (extract_thread sample_dates_lib (since_config ''2023-06-01'') dated_world
        ''https://forum.example/t/july-301'') = Inr True"
  "keep_decision sample_dates_lib (since_config ''2023-06-01'')
     (extract_thread sample_dates_lib (since_config ''2023-06-01'') dated_world
        ''https://forum.example/t/january-302'') = Inr False"
  "keep_decision sample_dates_lib (since_config ''2023-06-01'')
     (extract_thread sample_dates_lib (since_config ''2023-06-01'') dated_world
        ''https://forum.example/t/undated-303'') = Inr True"
  by (simp_all add: keep_decision_def is_after_since_def since_naive
      extract_thread_get [OF pages_of_dated_world(1)]
      extract_thread_get [OF pages_of_dated_world(2)]
      extract_thread_get [OF pages_of_dated_world(3)] post_date_of_dated_page parse_posted)

text \<open>
  C6 (at \<open>--since 2023-06-01T00:00:00Z\<close>): the since-date parses, through the ISO
  fallback, to an aware datetime; the post date of the thread of July 2023 is stored as
  \<open>2023-07-01 00:00:00\<close> and parses to a naive one. The thread is dated after the
  since-date, but the comparison raises \<open>TypeError\<close>: the record is not kept and the run
  is left at its first thread.
\<close>

theorem since_with_offset_aborts_run:
  "since_dt (since_config ''2023-06-01T00:00:00Z'') = Some (Aware 151)
   \<and> dict_get (extract_thread sample_dates_lib (since_config ''2023-06-01T00:00:00Z'')
         dated_world ''https://forum.example/t/july-301'') ''date_posted'' =
       JStr ''2023-07-01 00:00:00''
   \<and> run sample_dates_lib (since_config ''2023-06-01T00:00:00Z'') dated_world =
       Some (Inl TypeError, [Extract ''https://forum.example/t/july-301''])"
  by (simp add: run_def discover_dated_world keep_july_aware since_aware
      extract_thread_get [OF pages_of_dated_world(1)] post_date_of_dated_page)

text \<open>
  C9 (when discovery finds no URL): the run returns the empty list through its early
  \<open>return\<close>, and nothing has happened on the way: the browser session is not released.
\<close>

theorem run_without_urls_keeps_browser:
  "collect_question_urls forum_config sample_world = Some []
   \<and> run no_dates_lib forum_config sample_world = Some (Inr [], [])"
  by (simp add: run_def discover_sample_world)

lemma keep_without_since:
  "since_dt cfg = None \<Longrightarrow> keep_decision lib cfg thread = Inr True"
  by (simp add: keep_decision_def is_after_since_def)

lemma since_filter_iff:
  assumes "\<not> truthy (dict_get thread ''error'')"
    and "keep_decision lib cfg thread = Inr keep"
  shows "keep \<longleftrightarrow>
     since_dt cfg = None
     \<or> parse_date lib (as_text (dict_get thread ''date_posted'')) = None
     \<or> (\<exists>since posted. since_dt cfg = Some since
           \<and> parse_date lib (as_text (dict_get thread ''date_posted'')) = Some posted
           \<and> dt_ge posted since = Inr True)"
  using assms
  by (auto simp: keep_decision_def is_after_since_def split: option.splits)

lemma run_releases_browser_last:
  assumes "collect_question_urls cfg w = Some us" and "us \<noteq> []"
    and "checkpoint_every cfg \<noteq> 0"
    and "\<forall>u\<in>set us. \<forall>soup. page w u = Inr soup \<longrightarrow>
      keep_decision lib cfg (extract_thread lib cfg w u) \<noteq> Inl TypeError"
  shows "map_option (\<lambda>r. filter (\<lambda>e. e = Quit) (snd r)) (run lib cfg w) = Some [Quit]
     \<and> map_option (\<lambda>r. last (snd r)) (run lib cfg w) = Some Quit"
proof -
  from run_total [OF assms] obtain l where
    "run lib cfg w =
         Some (Inr (accumulated lib cfg w us),
               l @ [Save (accumulated lib cfg w us) False, Quit])"
    and "Quit \<notin> set l" by blast
  then show ?thesis by (auto simp: filter_empty_conv)
qed

lemma run_with_naive_since:
  "run sample_dates_lib (since_config ''2023-06-01'') dated_world =
     Some (Inr (accumulated sample_dates_lib (since_config ''2023-06-01'') dated_world
                  [''https://forum.example/t/july-301'', ''https://forum.example/t/undated-303'']),
           [Extract ''https://forum.example/t/july-301'',
            Extract ''https://forum.example/t/january-302'',
            Save [extract_thread sample_dates_lib (since_config ''2023-06-01'') dated_world
                    ''https://forum.example/t/july-301''] True,
            Extract ''https://forum.example/t/undated-303'',
            Save [extract_thread sample_dates_lib (since_config ''2023-06-01'') dated_world
                    ''https://forum.example/t/july-301'',
                  extract_thread sample_dates_lib (since_config ''2023-06-01'') dated_world
                    ''https://forum.example/t/undated-303''] False,
            Quit])"
  by (simp add: run_def discover_dated_world keep_naive since_config_fields accumulated_def
      Let_def)

text \<open>
  C7: for every URL whose page fails to load or parse, the record is exactly the three
  fields url, error, scraped_at, and the run keeps it. Such failures never end the run:
  when the cadence is not 0 and the date comparisons of the threads that did load are
  defined, the run returns normally, every discovered URL is processed in order, and
  the record of every failed URL is among the threads returned.
\<close>

theorem extraction_failure_recorded_run_continues:
  "(page w url = Inl message \<longrightarrow>
      extract_thread lib cfg w url =
        [(''url'', JStr url), (''error'', JStr message), (''scraped_at'', JStr (now w url))]
      \<and> keep_decision lib cfg (extract_thread lib cfg w url) = Inr True)
   \<and> (collect_question_urls cfg w = Some us \<and> us \<noteq> [] \<and> checkpoint_every cfg \<noteq> 0
        \<and> (\<forall>u\<in>set us. \<forall>soup. page w u = Inr soup \<longrightarrow>
              keep_decision lib cfg (extract_thread lib cfg w u) \<noteq> Inl TypeError)
      \<longrightarrow> map_option fst (run lib cfg w) = Some (Inr (accumulated lib cfg w us))
          \<and> map_option (\<lambda>r. extracts_of (snd r)) (run lib cfg w) = Some us
          \<and> (\<forall>u\<in>set us. \<forall>failure. page w u = Inl failure \<longrightarrow>
                [(''url'', JStr u), (''error'', JStr failure), (''scraped_at'', JStr (now w u))]
                  \<in> set (accumulated lib cfg w us)))"
proof (intro conjI impI)
  assume "page w url = Inl message"
  then show "extract_thread lib cfg w url =
        [(''url'', JStr url), (''error'', JStr message), (''scraped_at'', JStr (now w url))]"
    and "keep_decision lib cfg (extract_thread lib cfg w url) = Inr True"
    by (simp_all add: extract_thread_error keep_error_record)
next
  assume h: "collect_question_urls cfg w = Some us \<and> us \<noteq> [] \<and> checkpoint_every cfg \<noteq> 0
        \<and> (\<forall>u\<in>set us. \<forall>soup. page w u = Inr soup \<longrightarrow>
              keep_decision lib cfg (extract_thread lib cfg w u) \<noteq> Inl TypeError)"
  then obtain l where
    run: "run lib cfg w =
         Some (Inr (accumulated lib cfg w us),
               l @ [Save (accumulated lib cfg w us) False, Quit])"
    and ex: "extracts_of l = us"
    using run_total [of cfg w us lib] by blast
  have app: "extracts_of (xs @ ys) = extracts_of xs @ extracts_of ys" for xs ys
    by (induction xs rule: extracts_of.induct) auto
  show "map_option fst (run lib cfg w) = Some (Inr (accumulated lib cfg w us))"
    by (simp add: run)
  show "map_option (\<lambda>r. extracts_of (snd r)) (run lib cfg w) = Some us"
    by (simp add: run app ex)
  show "\<forall>u\<in>set us. \<forall>failure. page w u = Inl failure \<longrightarrow>
      [(''url'', JStr u), (''error'', JStr failure), (''scraped_at'', JStr (now w u))]
        \<in> set (accumulated lib cfg w us)"
  proof (intro ballI allI impI)
    fix u failure assume u: "u \<in> set us" and f: "page w u = Inl failure"
    have "keep_decision lib cfg (extract_thread lib cfg w u) = Inr True"
      by (simp add: extract_thread_error [OF f] keep_error_record)
    with u have "extract_thread lib cfg w u \<in> set (accumulated lib cfg w us)"
      by (auto simp: accumulated_def)
    then show "[(''url'', JStr u), (''error'', JStr failure), (''scraped_at'', JStr (now w u))]
        \<in> set (accumulated lib cfg w us)"
      by (simp add: extract_thread_error [OF f])
  qed
qed

lemma crawl_world_pages:
  "page crawl_world ''https://forum.example/t/gone-201'' = Inl ''timeout''"
  "now crawl_world ''https://forum.example/t/gone-201'' = ''2024-01-01 00:00:00''"
  by (simp_all add: crawl_world_def sample_world_def)

theorem extraction_failure_recorded_run_continues_witness:
  "extract_thread no_dates_lib forum_config crawl_world ''https://forum.example/t/gone-201'' =
     [(''url'', JStr ''https://forum.example/t/gone-201''), (''error'', JStr ''timeout''),
      (''scraped_at'', JStr ''2024-01-01 00:00:00'')]
   \<and> map_option (\<lambda>r. extracts_of (snd r)) (run no_dates_lib forum_config crawl_world) =
       Some [''https://forum.example/t/export-101'', ''https://forum.example/t/gone-201'',
             ''https://forum.example/t/kudos-102'', ''https://forum.example/t/gone-202'',
             ''https://forum.example/t/gone-203'']"
proof -
  have d: "\<forall>u\<in>set [''https://forum.example/t/export-101'', ''https://forum.example/t/gone-201'',
             ''https://forum.example/t/kudos-102'', ''https://forum.example/t/gone-202'',
             ''https://forum.example/t/gone-203'']. \<forall>soup. page crawl_world u = Inr soup \<longrightarrow>
      keep_decision no_dates_lib forum_config
        (extract_thread no_dates_lib forum_config crawl_world u) \<noteq> Inl TypeError"
    by (simp add: keep_without_since forum_config_def)
  have ce: "checkpoint_every forum_config \<noteq> 0" by (simp add: forum_config_def)
  note T = extraction_failure_recorded_run_continues
    [of crawl_world "''https://forum.example/t/gone-201''" "''timeout''" no_dates_lib forum_config]
  from T crawl_world_pages have a:
    "extract_thread no_dates_lib forum_config crawl_world ''https://forum.example/t/gone-201'' =
     [(''url'', JStr ''https://forum.example/t/gone-201''), (''error'', JStr ''timeout''),
      (''scraped_at'', JStr ''2024-01-01 00:00:00'')]"
    by simp
  from T discover_crawl_world d ce have
    "map_option (\<lambda>r. extracts_of (snd r)) (run no_dates_lib forum_config crawl_world) =
       Some [''https://forum.example/t/export-101'', ''https://forum.example/t/gone-201'',
             ''https://forum.example/t/kudos-102'', ''https://forum.example/t/gone-202'',
             ''https://forum.example/t/gone-203'']"
    by blast
  with a show ?thesis by simp
qed

theorem checkpoint_writes_witness:
  "checkpoint_every forum_config = 2
   \<and> map_option length (collect_question_urls forum_config crawl_world) = Some 5
   \<and> map_option (\<lambda>r. map fst (writes_of (snd r))) (run no_dates_lib forum_config crawl_world)
       = Some [2, 4, 5]"
proof -
  have d: "\<forall>u\<in>set [''https://forum.example/t/export-101'', ''https://forum.example/t/gone-201'',
             ''https://forum.example/t/kudos-102'', ''https://forum.example/t/gone-202'',
             ''https://forum.example/t/gone-203'']. \<forall>soup. page crawl_world u = Inr soup \<longrightarrow>
      keep_decision no_dates_lib forum_config
        (extract_thread no_dates_lib forum_config crawl_world u) \<noteq> Inl TypeError"
    by (simp add: keep_without_since forum_config_def)
  have ce: "checkpoint_every forum_config \<noteq> 0" and two: "checkpoint_every forum_config = 2"
    by (simp_all add: forum_config_def)
  from checkpoint_writes [OF discover_crawl_world _ ce d] two
  show ?thesis by (simp add: discover_crawl_world)
qed

lemma discover_crawl_world_zero_cadence:
  "collect_question_urls (forum_config\<lparr>checkpoint_every := 0\<rparr>) crawl_world =
     Some [''https://forum.example/t/export-101'', ''https://forum.example/t/gone-201'',
           ''https://forum.example/t/kudos-102'', ''https://forum.example/t/gone-202'',
           ''https://forum.example/t/gone-203'']"
  by (simp add: collect_question_urls_def discovery_eval discovery_loop.simps forum_config_def
      crawl_world_def sample_world_def)

text \<open>
  C5 (at a checkpoint cadence of 0): the configuration is accepted, five URLs are
  discovered, and \<open>index % self.checkpoint_every\<close> raises \<open>ZeroDivisionError\<close> after
  the first thread is extracted. The run is left there: the output file is never
  written, not even by the final write.
\<close>

theorem zero_cadence_aborts_run:
  "checkpoint_every (forum_config\<lparr>checkpoint_every := 0\<rparr>) = 0
   \<and> map_option length
         (collect_question_urls (forum_config\<lparr>checkpoint_every := 0\<rparr>) crawl_world) = Some 5
   \<and> run no_dates_lib (forum_config\<lparr>checkpoint_every := 0\<rparr>) crawl_world =
       Some (Inl ZeroDivisionError, [Extract ''https://forum.example/t/export-101''])
   \<and> map_option (\<lambda>r. writes_of (snd r))
         (run no_dates_lib (forum_config\<lparr>checkpoint_every := 0\<rparr>) crawl_world) = Some []"
proof -
  have since: "since_dt (forum_config\<lparr>checkpoint_every := 0\<rparr>) = None"
    by (simp add: forum_config_def)
  have run: "run no_dates_lib (forum_config\<lparr>checkpoint_every := 0\<rparr>) crawl_world =
       Some (Inl ZeroDivisionError, [Extract ''https://forum.example/t/export-101''])"
    by (simp add: run_def discover_crawl_world_zero_cadence keep_without_since [OF since])
  show ?thesis
    by (simp add: run discover_crawl_world_zero_cadence writes_of_def)
qed

end
